theory Spec2Isabelle
  imports Complex_Main "HOL-Library.Monad_Syntax"
begin

section \<open>The blob aggregation pass of \<open>RDFBodyPartsDetector\<close>\<close>

text \<open>
  A shallow embedding of \<open>gpu/people/src/bodyparts_detector.cpp\<close>: the constructor and the
  host-side part of \<open>RDFBodyPartsDetector::process\<close> (lines 183 to 237), which turns the
  label image, the connected-component image and the point cloud into the blob matrix.

  Conventions of the model:
  \<^item> a \<open>float\<close> is a \<open>real\<close>: sums and quotients are exact, and rounding, infinities and NaN
    are outside the model;
  \<^item> an \<open>int\<close> is an \<open>int\<close> and a \<open>size_t\<close> a \<open>nat\<close>, without wrap-around (every counter of
    the pass is bounded by the number of pixels);
  \<^item> a \<open>std::vector\<close> is a list; \<open>operator[]\<close> outside the vector is undefined behaviour
    in C++ and is the result \<open>None\<close> of the model;
  \<^item> the member names of the class lose their trailing underscore.
\<close>

subsection \<open>Data\<close>

text \<open>
  \<open>float3\<close> (three floats). The cloud's \<open>PointXYZ\<close> carries the same three coordinates, the
  only ones the pass reads.
\<close>

record float3 =
  f3x :: real
  f3y :: real
  f3z :: real

type_synonym PointXYZ = float3

definition zero3 :: float3 where
  "zero3 = \<lparr>f3x = 0, f3y = 0, f3z = 0\<rparr>"

text \<open>The three statements \<open>means[cc].x += p.x\<close>, \<open>.y\<close>, \<open>.z\<close>.\<close>

definition add3 :: "float3 \<Rightarrow> PointXYZ \<Rightarrow> float3" where
  "add3 m p = \<lparr>f3x = f3x m + f3x p, f3y = f3y m + f3y p, f3z = f3z m + f3z p\<rparr>"

text \<open>The three quotients \<open>means[cc].x / rsizes[cc]\<close>, \<open>.y\<close>, \<open>.z\<close> (float by int).\<close>

definition div3 :: "float3 \<Rightarrow> int \<Rightarrow> float3" where
  "div3 m r = \<lparr>f3x = f3x m / of_int r, f3y = f3y m / of_int r, f3z = f3z m / of_int r\<rparr>"

text \<open>
  \<open>Blob2\<close>, with the fields the pass writes: \<open>label\<close>, the first three coefficients of
  \<open>mean\<close>, \<open>indices.indices\<close>, \<open>id\<close> and \<open>lid\<close>. The field \<open>id\<close> is named \<open>id'\<close> here.
\<close>

record Blob2 =
  label :: nat
  mean :: float3
  indices :: "nat list"
  id' :: nat
  lid :: nat

text \<open>The element that \<open>resize\<close> appends to a list of blobs.\<close>

definition Blob2_new :: Blob2 where
  "Blob2_new = \<lparr>label = 0, mean = zero3, indices = [], id' = 0, lid = 0\<rparr>"

text \<open>The host-side members of the detector that \<open>process\<close> reads and writes.\<close>

record detector =
  max_cluster_size :: int
  lmap_host :: "nat list"
  dst_labels :: "int list"
  region_sizes :: "int list"
  remap :: "int list"
  means_storage :: "float3 list"
  blob_matrix :: "Blob2 list list"

subsection \<open>Vectors\<close>

text \<open>\<open>v[i]\<close> as a read and as a write; \<open>None\<close> outside the vector.\<close>

definition rd :: "'a list \<Rightarrow> int \<Rightarrow> 'a option" where
  "rd v i = (if 0 \<le> i \<and> i < int (length v) then Some (v ! nat i) else None)"

definition wr :: "'a list \<Rightarrow> int \<Rightarrow> 'a \<Rightarrow> 'a list option" where
  "wr v i a = (if 0 \<le> i \<and> i < int (length v) then Some (v[nat i := a]) else None)"

text \<open>\<open>v.resize(n)\<close>: the first \<open>n\<close> elements stay, new ones are value-initialised.\<close>

definition resize :: "nat \<Rightarrow> 'a \<Rightarrow> 'a list \<Rightarrow> 'a list" where
  "resize n d v = take n v @ replicate (n - length v) d"

text \<open>\<open>std::fill(v.begin(), v.end(), a)\<close>.\<close>

definition fill :: "'a \<Rightarrow> 'a list \<Rightarrow> 'a list" where
  "fill a v = map (\<lambda>_. a) v"

text \<open>A counting loop \<open>for (k = ...; ...; ++k) body\<close> over the given values of \<open>k\<close>.\<close>

fun for_loop :: "(nat \<Rightarrow> 's \<Rightarrow> 's option) \<Rightarrow> nat list \<Rightarrow> 's \<Rightarrow> 's option" where
  "for_loop body [] s = Some s"
| "for_loop body (k # ks) s = (case body k s of None \<Rightarrow> None | Some s' \<Rightarrow> for_loop body ks s')"

subsection \<open>\<open>allocate_buffers\<close>\<close>

text \<open>
  Lines 125 to 147. \<open>NUM_PARTS\<close> is declared outside this file and is a parameter. The
  device images \<open>labels\<close>, \<open>labels_smoothed\<close>, \<open>comps\<close> and \<open>edges\<close> live on the accelerator
  and are not part of the host state.
\<close>

definition allocate_buffers :: "nat \<Rightarrow> nat \<Rightarrow> nat \<Rightarrow> detector \<Rightarrow> detector" where
  "allocate_buffers NUM_PARTS rows cols s =
     s\<lparr>lmap_host := resize (rows * cols) 0 (lmap_host s),
       dst_labels := resize (rows * cols) 0 (dst_labels s),
       region_sizes := resize (rows * cols + 1) 0 (region_sizes s),
       remap := resize (rows * cols) 0 (remap s),
       means_storage := resize (rows * cols + 1) zero3 (means_storage s),
       blob_matrix := map (\<lambda>_. []) (resize NUM_PARTS [] (blob_matrix s))\<rparr>"

subsection \<open>The two passes\<close>

text \<open>
  \<open>means\<close> and \<open>rsizes\<close> point one slot into their vectors, so \<open>means[cc]\<close> is slot \<open>cc + 1\<close>
  of \<open>means_storage\<close> (taken as a vector of \<open>float3\<close>) and \<open>rsizes[cc]\<close> is slot \<open>cc + 1\<close> of
  \<open>region_sizes\<close>.
\<close>

text \<open>The body of the loop of lines 195 to 203.\<close>

definition pass1_body :: "PointXYZ list \<Rightarrow> nat \<Rightarrow> detector \<Rightarrow> detector option" where
  "pass1_body cloud k s = do {
     p \<leftarrow> rd cloud (int k);
     cc \<leftarrow> rd (dst_labels s) (int k);
     m \<leftarrow> rd (means_storage s) (cc + 1);
     ms \<leftarrow> wr (means_storage s) (cc + 1) (add3 m p);
     r \<leftarrow> rd (region_sizes s) (cc + 1);
     rs \<leftarrow> wr (region_sizes s) (cc + 1) (r + 1);
     Some (s\<lparr>means_storage := ms, region_sizes := rs\<rparr>)
   }"

text \<open>Line 205: \<open>means[-1].z = 0\<close>.\<close>

definition clear_invalid :: "detector \<Rightarrow> detector option" where
  "clear_invalid s = do {
     m \<leftarrow> rd (means_storage s) 0;
     ms \<leftarrow> wr (means_storage s) 0 (m\<lparr>f3z := 0\<rparr>);
     Some (s\<lparr>means_storage := ms\<rparr>)
   }"

text \<open>
  Lines 217 to 225, the blob that is created when \<open>remap\<close> holds no position for the
  component: the row of the label grows by one blob, \<open>remap\<close> records the position, and the
  label and the mean of the new blob are set. (\<open>reserve\<close> changes no value.) The result
  carries the new \<open>ccindex\<close>.
\<close>

definition create_blob ::
  "nat \<Rightarrow> int \<Rightarrow> float3 \<Rightarrow> int \<Rightarrow> detector \<Rightarrow> (int \<times> detector) option" where
  "create_blob lab cc m r s = do {
     row \<leftarrow> rd (blob_matrix s) (int lab);
     let ccindex = int (length row);
     bm \<leftarrow> wr (blob_matrix s) (int lab) (resize (nat (ccindex + 1)) Blob2_new row);
     rm \<leftarrow> wr (remap s) cc ccindex;
     let s = s\<lparr>remap := rm, blob_matrix := bm\<rparr>;
     row \<leftarrow> rd (blob_matrix s) (int lab);
     b \<leftarrow> rd row ccindex;
     bm \<leftarrow> wr (blob_matrix s) (int lab)
             (row[nat ccindex := b\<lparr>label := lab, mean := div3 m r\<rparr>]);
     Some (ccindex, s\<lparr>blob_matrix := bm\<rparr>)
   }"

text \<open>Line 227: \<open>blob_matrix_[label][ccindex].indices.indices.push_back(k)\<close>.\<close>

definition push_back_index :: "nat \<Rightarrow> int \<Rightarrow> nat \<Rightarrow> detector \<Rightarrow> detector option" where
  "push_back_index lab ccindex k s = do {
     row \<leftarrow> rd (blob_matrix s) (int lab);
     b \<leftarrow> rd row ccindex;
     bm \<leftarrow> wr (blob_matrix s) (int lab) (row[nat ccindex := b\<lparr>indices := indices b @ [k]\<rparr>]);
     Some (s\<lparr>blob_matrix := bm\<rparr>)
   }"

text \<open>The body of the loop of lines 207 to 229; \<open>lab\<close> is the variable \<open>label\<close>.\<close>

definition pass2_body :: "int \<Rightarrow> nat \<Rightarrow> detector \<Rightarrow> detector option" where
  "pass2_body min_pts_per_cluster k s = do {
     lab \<leftarrow> rd (lmap_host s) (int k);
     cc \<leftarrow> rd (dst_labels s) (int k);
     m \<leftarrow> rd (means_storage s) (cc + 1);
     r \<leftarrow> rd (region_sizes s) (cc + 1);
     if f3z m \<noteq> 0 \<and> min_pts_per_cluster \<le> r \<and> r \<le> max_cluster_size s then do {
       ccindex \<leftarrow> rd (remap s) cc;
       (ccindex, s) \<leftarrow>
         (if ccindex = -1 then create_blob lab cc m r s else Some (ccindex, s));
       push_back_index lab ccindex k s
     } else Some s
   }"

subsection \<open>Finalisation\<close>

text \<open>
  Lines 231 to 237. The inner loop numbers one row from position \<open>b\<close> on and returns the
  counter \<open>id\<close>; the outer loop walks the rows in label order.
\<close>

fun number_row :: "nat \<Rightarrow> nat \<Rightarrow> Blob2 list \<Rightarrow> Blob2 list \<times> nat" where
  "number_row i b [] = ([], i)"
| "number_row i b (x # xs) =
     (case number_row (Suc i) (Suc b) xs of (ys, j) \<Rightarrow> (x\<lparr>id' := i, lid := b\<rparr> # ys, j))"

fun number_matrix :: "nat \<Rightarrow> Blob2 list list \<Rightarrow> Blob2 list list" where
  "number_matrix i [] = []"
| "number_matrix i (row # rows) =
     (case number_row i 0 row of (row', j) \<Rightarrow> row' # number_matrix j rows)"

subsection \<open>\<open>process\<close>\<close>

text \<open>
  Lines 149 to 240. The classifier, the smoother and the component labeller run on the
  accelerator; their results, downloaded into \<open>lmap_host\<close> and \<open>dst_labels\<close>, are the
  parameters \<open>labels_smoothed\<close> and \<open>comps\<close>, and \<open>rows\<close> and \<open>cols\<close> are those of the depth
  image. \<open>buildRelations\<close> writes none of the fields modelled here.
\<close>

definition process ::
  "nat \<Rightarrow> nat \<Rightarrow> nat \<Rightarrow> nat list \<Rightarrow> int list \<Rightarrow> PointXYZ list \<Rightarrow> int \<Rightarrow> detector \<Rightarrow> detector option" where
  "process NUM_PARTS rows cols labels_smoothed comps cloud min_pts_per_cluster s = do {
     let s = allocate_buffers NUM_PARTS rows cols s;
     let s = s\<lparr>lmap_host := labels_smoothed\<rparr>;
     let s = s\<lparr>dst_labels := comps\<rparr>;
     let s = s\<lparr>remap := fill (-1) (remap s)\<rparr>;
     let s = s\<lparr>region_sizes := fill 0 (region_sizes s)\<rparr>;
     let s = s\<lparr>means_storage := fill zero3 (means_storage s)\<rparr>;
     let s = s\<lparr>blob_matrix := map (\<lambda>_. []) (blob_matrix s)\<rparr>;
     s \<leftarrow> for_loop (pass1_body cloud) [0..<length (dst_labels s)] s;
     s \<leftarrow> clear_invalid s;
     s \<leftarrow> for_loop (pass2_body min_pts_per_cluster) [0..<length (dst_labels s)] s;
     Some (s\<lparr>blob_matrix := number_matrix 0 (blob_matrix s)\<rparr>)
   }"

subsection \<open>The constructor\<close>

text \<open>
  Lines 52 and 55 to 87. The constructor acquires resources in this order: the
  \<open>MultiTreeLiveProc\<close> behind \<open>impl_\<close>, one \<open>CUDATree\<close> for each tree file, the colour map on
  the device, and the buffers of \<open>allocate_buffers\<close>. \<open>loadTree\<close> is declared outside this
  file and is a parameter: it gives the height of the tree, or \<open>None\<close> when it throws.

  The only check of the list of tree files is the \<open>assert\<close> of line 59, under the comment
  \<open>TODO replace all asserts with exceptions\<close>. An \<open>assert\<close> is compiled in unless \<open>NDEBUG\<close> is
  defined, so the build is a parameter of the model. A construction ends in one of three
  ways: the assertion fails and the process is aborted, an exception of \<open>loadTree\<close> leaves
  the constructor, or the detector is constructed; each comes with the resources acquired
  up to that point.
\<close>

definition MAX_CLUST_SIZE :: int where
  "MAX_CLUST_SIZE = 25000"

datatype resource = MultiTreeLiveProc nat nat | CUDATree nat | color_map | buffers nat nat

datatype construction =
    aborted "resource list"
  | threw "resource list"
  | constructed detector "resource list"

fun load_trees ::
  "(string \<Rightarrow> nat option) \<Rightarrow> string list \<Rightarrow> resource list \<Rightarrow>
     resource list + resource list" where
  "load_trees loadTree [] acquired = Inr acquired"
| "load_trees loadTree (f # fs) acquired =
     (case loadTree f of
        None \<Rightarrow> Inl acquired
      | Some height \<Rightarrow> load_trees loadTree fs (acquired @ [CUDATree height]))"

definition RDFBodyPartsDetector ::
  "bool \<Rightarrow> nat \<Rightarrow> (string \<Rightarrow> nat option) \<Rightarrow> string list \<Rightarrow> nat \<Rightarrow> nat \<Rightarrow> construction" where
  "RDFBodyPartsDetector NDEBUG NUM_PARTS loadTree tree_files rows cols =
     (if \<not> NDEBUG \<and> tree_files = [] then aborted []
      else case load_trees loadTree tree_files [MultiTreeLiveProc rows cols] of
        Inl acquired \<Rightarrow> threw acquired
      | Inr acquired \<Rightarrow>
          constructed
            (allocate_buffers NUM_PARTS rows cols
               \<lparr>max_cluster_size = MAX_CLUST_SIZE, lmap_host = [], dst_labels = [],
                region_sizes = [], remap = [], means_storage = [], blob_matrix = []\<rparr>)
            (acquired @ [color_map, buffers rows cols]))"

subsection \<open>Vocabulary of the statements\<close>

text \<open>
  The pixels among the first \<open>k\<close> whose component id is \<open>cc\<close>, in raster order, their number,
  and the sum of their points added up in raster order from zero; with \<open>k\<close> the number of
  pixels these are the pixels, the count and the coordinate sum of the component.
\<close>

definition pixels_upto :: "int list \<Rightarrow> nat \<Rightarrow> int \<Rightarrow> nat list" where
  "pixels_upto comps k cc = filter (\<lambda>j. comps ! j = cc) [0..<k]"

definition count_upto :: "int list \<Rightarrow> nat \<Rightarrow> int \<Rightarrow> int" where
  "count_upto comps k cc = int (length (pixels_upto comps k cc))"

definition sum_upto :: "PointXYZ list \<Rightarrow> int list \<Rightarrow> nat \<Rightarrow> int \<Rightarrow> float3" where
  "sum_upto cloud comps k cc = foldl add3 zero3 (map (\<lambda>j. cloud ! j) (pixels_upto comps k cc))"

definition component_pixels :: "int list \<Rightarrow> int \<Rightarrow> nat list" where
  "component_pixels comps cc = pixels_upto comps (length comps) cc"

definition component_count :: "int list \<Rightarrow> int \<Rightarrow> int" where
  "component_count comps cc = count_upto comps (length comps) cc"

definition component_sum :: "PointXYZ list \<Rightarrow> int list \<Rightarrow> int \<Rightarrow> float3" where
  "component_sum cloud comps cc = sum_upto cloud comps (length comps) cc"

text \<open>
  The test of line 212 in terms of the frame: the component is not the sentinel (whose
  \<open>z\<close> sum line 205 sets to zero), its \<open>z\<close> sum is not zero and its count is within the
  two bounds.
\<close>

definition survives :: "PointXYZ list \<Rightarrow> int list \<Rightarrow> int \<Rightarrow> int \<Rightarrow> int \<Rightarrow> bool" where
  "survives cloud comps min_pts max_size cc \<longleftrightarrow>
     cc \<noteq> -1 \<and> f3z (component_sum cloud comps cc) \<noteq> 0 \<and>
     min_pts \<le> component_count comps cc \<and> component_count comps cc \<le> max_size"

text \<open>The size test alone, without the test on the \<open>z\<close> sum.\<close>

definition within_bounds :: "int list \<Rightarrow> int \<Rightarrow> int \<Rightarrow> int \<Rightarrow> bool" where
  "within_bounds comps min_pts max_size cc \<longleftrightarrow>
     cc \<noteq> -1 \<and> min_pts \<le> component_count comps cc \<and> component_count comps cc \<le> max_size"

text \<open>
  The state at line 195, after the buffers are sized, downloaded into and reset, for a
  frame of \<open>n = rows * cols\<close> pixels.
\<close>

definition reset_state :: "nat \<Rightarrow> nat \<Rightarrow> nat list \<Rightarrow> int list \<Rightarrow> int \<Rightarrow> detector" where
  "reset_state NUM_PARTS n labels_smoothed comps max_size =
     \<lparr>max_cluster_size = max_size, lmap_host = labels_smoothed, dst_labels = comps,
      region_sizes = replicate (n + 1) 0, remap = replicate n (-1),
      means_storage = replicate (n + 1) zero3,
      blob_matrix = replicate NUM_PARTS []\<rparr>"

text \<open>The state after \<open>k\<close> iterations of pass 1.\<close>

definition pass1_state ::
  "nat \<Rightarrow> nat \<Rightarrow> nat list \<Rightarrow> int list \<Rightarrow> PointXYZ list \<Rightarrow> int \<Rightarrow> nat \<Rightarrow> detector" where
  "pass1_state NUM_PARTS n labels_smoothed comps cloud max_size k =
     (reset_state NUM_PARTS n labels_smoothed comps max_size)
       \<lparr>means_storage := map (\<lambda>i. sum_upto cloud comps k (int i - 1)) [0..<n + 1],
        region_sizes := map (\<lambda>i. count_upto comps k (int i - 1)) [0..<n + 1]\<rparr>"

text \<open>The state at line 207, after pass 1 and line 205.\<close>

definition accumulated_state ::
  "nat \<Rightarrow> nat \<Rightarrow> nat list \<Rightarrow> int list \<Rightarrow> PointXYZ list \<Rightarrow> int \<Rightarrow> detector" where
  "accumulated_state NUM_PARTS n labels_smoothed comps cloud max_size =
     (reset_state NUM_PARTS n labels_smoothed comps max_size)
       \<lparr>means_storage :=
          map (\<lambda>i. if i = 0 then (component_sum cloud comps (-1))\<lparr>f3z := 0\<rparr>
                    else component_sum cloud comps (int i - 1)) [0..<n + 1],
        region_sizes := map (\<lambda>i. component_count comps (int i - 1)) [0..<n + 1]\<rparr>"

text \<open>
  The preconditions of the pass: the three grids have \<open>rows * cols\<close> pixels and the
  component ids lie in \<open>[-1, rows * cols)\<close>.
\<close>

definition frame_ok :: "nat \<Rightarrow> nat \<Rightarrow> nat list \<Rightarrow> int list \<Rightarrow> PointXYZ list \<Rightarrow> bool" where
  "frame_ok rows cols labels_smoothed comps cloud \<longleftrightarrow>
     length labels_smoothed = rows * cols \<and> length comps = rows * cols \<and>
     length cloud = rows * cols \<and> (\<forall>cc \<in> set comps. -1 \<le> cc \<and> cc < int (rows * cols))"

text \<open>
  What the component labeller guarantees: a pixel of a component carries a label below
  \<open>NUM_PARTS\<close>, and the pixels of one component carry one label.
\<close>

definition label_homogeneous :: "nat \<Rightarrow> nat list \<Rightarrow> int list \<Rightarrow> bool" where
  "label_homogeneous NUM_PARTS labels_smoothed comps \<longleftrightarrow>
     (\<forall>k < length comps. comps ! k \<noteq> -1 \<longrightarrow>
        labels_smoothed ! k < NUM_PARTS \<and>
        (\<forall>j < length comps. comps ! j = comps ! k \<longrightarrow> labels_smoothed ! j = labels_smoothed ! k))"

subsection \<open>Invariants of pass 2\<close>

text \<open>A property of every blob of the matrix, given its row and its position in the row.\<close>

definition matrix_all :: "(nat \<Rightarrow> nat \<Rightarrow> 'a \<Rightarrow> bool) \<Rightarrow> 'a list list \<Rightarrow> bool" where
  "matrix_all Q bm \<longleftrightarrow> (\<forall>l < length bm. \<forall>i < length (bm ! l). Q l i (bm ! l ! i))"

text \<open>The first member of a blob, and the component id of that pixel.\<close>

definition first_pixel :: "Blob2 \<Rightarrow> nat" where
  "first_pixel b = hd (indices b)"

definition component_of :: "int list \<Rightarrow> Blob2 \<Rightarrow> int" where
  "component_of comps b = comps ! first_pixel b"

text \<open>
  After \<open>k\<close> iterations a blob of row \<open>l\<close> has label \<open>l\<close>; its members are increasing pixels
  below \<open>k\<close> that pass the test \<open>sv\<close> and carry the label \<open>l\<close>; its first member is the
  first pixel of its component, and its mean is the quotient of that component.
\<close>

definition blob_ok ::
  "nat list \<Rightarrow> int list \<Rightarrow> PointXYZ list \<Rightarrow> (int \<Rightarrow> bool) \<Rightarrow> nat \<Rightarrow> nat \<Rightarrow> Blob2 \<Rightarrow> bool" where
  "blob_ok labs comps cloud sv k l b \<longleftrightarrow>
     label b = l \<and> indices b \<noteq> [] \<and> sorted_wrt (<) (indices b) \<and>
     (\<forall>j \<in> set (indices b). j < k \<and> sv (comps ! j) \<and> labs ! j = l) \<and>
     (\<forall>j < first_pixel b. comps ! j \<noteq> component_of comps b) \<and>
     mean b = div3 (component_sum cloud comps (component_of comps b))
                   (component_count comps (component_of comps b))"

text \<open>The rows are in the order of the first pixels of their blobs.\<close>

definition heads_sorted :: "Blob2 list list \<Rightarrow> bool" where
  "heads_sorted bm \<longleftrightarrow> (\<forall>l < length bm. sorted_wrt (<) (map first_pixel (bm ! l)))"

text \<open>
  \<open>remap\<close> holds \<open>-1\<close> for a component exactly until a pixel of it passes the test, and then
  the position, in the row of the label of its first pixel, of the blob that starts there.
\<close>

definition remap_fresh :: "int list \<Rightarrow> (int \<Rightarrow> bool) \<Rightarrow> nat \<Rightarrow> int list \<Rightarrow> bool" where
  "remap_fresh comps sv k rm \<longleftrightarrow>
     (\<forall>c. 0 \<le> c \<and> c < int (length rm) \<longrightarrow>
        (rm ! nat c = -1) = (\<not> (sv c \<and> (\<exists>j<k. comps ! j = c))))"

definition remap_points :: "nat list \<Rightarrow> int list \<Rightarrow> nat \<Rightarrow> int list \<Rightarrow> Blob2 list list \<Rightarrow> bool" where
  "remap_points labs comps k rm bm \<longleftrightarrow>
     (\<forall>c. 0 \<le> c \<and> c < int (length rm) \<and> rm ! nat c \<noteq> -1 \<longrightarrow>
        0 \<le> rm ! nat c \<and>
        (\<exists>h<k. comps ! h = c \<and> labs ! h < length bm \<and>
           nat (rm ! nat c) < length (bm ! (labs ! h)) \<and>
           first_pixel (bm ! (labs ! h) ! nat (rm ! nat c)) = h))"

text \<open>
  A pixel that passed the test is a member of the blob at the position that \<open>remap\<close> holds
  for its component, in the row of the pixel's own label.
\<close>

definition pixels_placed ::
  "nat list \<Rightarrow> int list \<Rightarrow> (int \<Rightarrow> bool) \<Rightarrow> nat \<Rightarrow> int list \<Rightarrow> Blob2 list list \<Rightarrow> bool" where
  "pixels_placed labs comps sv k rm bm \<longleftrightarrow>
     (\<forall>j<k. sv (comps ! j) \<longrightarrow>
        0 \<le> comps ! j \<and> labs ! j < length bm \<and>
        nat (rm ! nat (comps ! j)) < length (bm ! (labs ! j)) \<and>
        j \<in> set (indices (bm ! (labs ! j) ! nat (rm ! nat (comps ! j)))))"

text \<open>The number of members of all blobs.\<close>

definition member_count :: "Blob2 list list \<Rightarrow> nat" where
  "member_count bm = sum_list (map (\<lambda>row. sum_list (map (\<lambda>b. length (indices b)) row)) bm)"

text \<open>The invariant of pass 2 for any frame.\<close>

definition pass2_inv ::
  "nat \<Rightarrow> nat \<Rightarrow> nat list \<Rightarrow> int list \<Rightarrow> PointXYZ list \<Rightarrow> (int \<Rightarrow> bool) \<Rightarrow>
     nat \<Rightarrow> int list \<Rightarrow> Blob2 list list \<Rightarrow> bool" where
  "pass2_inv NUM_PARTS n labs comps cloud sv k rm bm \<longleftrightarrow>
     length rm = n \<and> length bm = NUM_PARTS \<and>
     matrix_all (\<lambda>l i. blob_ok labs comps cloud sv k l) bm \<and>
     heads_sorted bm \<and> remap_fresh comps sv k rm \<and> remap_points labs comps k rm bm \<and>
     pixels_placed labs comps sv k rm bm \<and>
     member_count bm = length (filter (\<lambda>j. sv (comps ! j)) [0..<k])"

text \<open>With one label per component, a blob holds the pixels of its component seen so far.\<close>

definition blob_full :: "int list \<Rightarrow> nat \<Rightarrow> Blob2 \<Rightarrow> bool" where
  "blob_full comps k b \<longleftrightarrow> indices b = pixels_upto comps k (component_of comps b)"

text \<open>The blob that line 218 to 227 create at pixel \<open>k\<close>.\<close>

definition created_blob :: "nat list \<Rightarrow> int list \<Rightarrow> PointXYZ list \<Rightarrow> nat \<Rightarrow> Blob2" where
  "created_blob labs comps cloud k =
     \<lparr>label = labs ! k,
      mean = div3 (component_sum cloud comps (comps ! k)) (component_count comps (comps ! k)),
      indices = [k], id' = 0, lid = 0\<rparr>"

text \<open>The arithmetic mean of the points of the members of a blob.\<close>

definition members_mean :: "PointXYZ list \<Rightarrow> Blob2 \<Rightarrow> float3" where
  "members_mean cloud b =
     div3 (foldl add3 zero3 (map (\<lambda>j. cloud ! j) (indices b))) (int (length (indices b)))"

subsection \<open>Example frames\<close>

definition point :: "real \<Rightarrow> real \<Rightarrow> real \<Rightarrow> PointXYZ" where
  "point a b c = \<lparr>f3x = a, f3y = b, f3z = c\<rparr>"

text \<open>A detector with empty buffers and the given \<open>max_cluster_size\<close>.\<close>

definition idle_detector :: "int \<Rightarrow> detector" where
  "idle_detector max_size =
     \<lparr>max_cluster_size = max_size, lmap_host = [], dst_labels = [], region_sizes = [],
      remap = [], means_storage = [], blob_matrix = []\<rparr>"

text \<open>A detector whose buffers hold the results of an earlier frame.\<close>

definition used_detector :: "int \<Rightarrow> detector" where
  "used_detector max_size =
     \<lparr>max_cluster_size = max_size, lmap_host = [3, 3], dst_labels = [1, 1],
      region_sizes = [0, 0, 2], remap = [-1, 0], means_storage = [zero3, zero3, point 1 1 1],
      blob_matrix = [[], [], [],
        [\<lparr>label = 3, mean = point 1 1 1, indices = [0, 1], id' = 0, lid = 0\<rparr>]]\<rparr>"

text \<open>The cloud of scenario A, and the same cloud with every point off the plane \<open>z = 0\<close>.\<close>

definition scenario_A_cloud :: "PointXYZ list" where
  "scenario_A_cloud = [point 0 0 0, point 2 0 0, point 5 5 5, point 7 5 5]"

definition raised_cloud :: "PointXYZ list" where
  "raised_cloud = [point 0 0 1, point 2 0 1, point 5 5 5, point 7 5 5]"

text \<open>The states that \<open>process\<close> returns on the example frames.\<close>

definition raised_result :: detector where
  "raised_result =
     \<lparr>max_cluster_size = 10, lmap_host = [0, 0, 1, 1], dst_labels = [0, 0, 1, 1],
       region_sizes = [0, 2, 2, 0, 0], remap = [0, 0, -1, -1],
       means_storage = [zero3, point 2 0 2, point 12 10 10, zero3, zero3],
       blob_matrix =
         [[\<lparr>label = 0, mean = point 1 0 1, indices = [0, 1], id' = 0, lid = 0\<rparr>],
          [\<lparr>label = 1, mean = point 6 5 5, indices = [2, 3], id' = 1, lid = 0\<rparr>]]\<rparr>"

definition mixed_result :: detector where
  "mixed_result =
     \<lparr>max_cluster_size = 10, lmap_host = [1, 1, 0, 1], dst_labels = [0, 0, 1, 1],
       region_sizes = [0, 2, 2, 0, 0], remap = [0, 0, -1, -1],
       means_storage = [zero3, point 2 0 2, point 12 10 10, zero3, zero3],
       blob_matrix =
         [[\<lparr>label = 0, mean = point 6 5 5, indices = [2], id' = 0, lid = 0\<rparr>],
          [\<lparr>label = 1, mean = point 1 0 1, indices = [0, 1, 3], id' = 1, lid = 0\<rparr>]]\<rparr>"

definition scenario_A_result :: detector where
  "scenario_A_result =
     \<lparr>max_cluster_size = 10, lmap_host = [0, 0, 1, 1], dst_labels = [0, 0, 1, 1],
       region_sizes = [0, 2, 2, 0, 0], remap = [-1, 0, -1, -1],
       means_storage = [zero3, point 2 0 0, point 12 10 10, zero3, zero3],
       blob_matrix =
         [[], [\<lparr>label = 1, mean = point 6 5 5, indices = [2, 3], id' = 0, lid = 0\<rparr>]]\<rparr>"

definition half_sentinel_result :: detector where
  "half_sentinel_result =
     \<lparr>max_cluster_size = 10, lmap_host = [0, 0, 1, 1], dst_labels = [0, 0, -1, -1],
       region_sizes = [2, 2, 0, 0, 0], remap = [0, -1, -1, -1],
       means_storage = [point 12 10 0, point 2 0 2, zero3, zero3, zero3],
       blob_matrix =
         [[\<lparr>label = 0, mean = point 1 0 1, indices = [0, 1], id' = 0, lid = 0\<rparr>], []]\<rparr>"

section \<open>Loops\<close>

lemma for_loop_append:
  "for_loop body (xs @ ys) s = Option.bind (for_loop body xs s) (for_loop body ys)"
  by (induction xs arbitrary: s) (auto split: option.splits)

lemma for_loop_upt_Suc:
  "for_loop body [0..<Suc n] s = Option.bind (for_loop body [0..<n] s) (body n)"
  by (cases "for_loop body [0..<n] s") (auto simp: for_loop_append split: option.splits)

text \<open>An invariant that every iteration keeps holds when the loop returns.\<close>

lemma for_loop_invariant:
  assumes "for_loop body [0..<n] s = Some s'"
    and "I 0 s"
    and "\<And>k t t'. k < n \<Longrightarrow> I k t \<Longrightarrow> body k t = Some t' \<Longrightarrow> I (Suc k) t'"
  shows "I n s'"
  using assms
proof (induction n arbitrary: s')
  case 0
  then show ?case by simp
next
  case (Suc n)
  from Suc.prems(1) obtain t where t: "for_loop body [0..<n] s = Some t" and b: "body n t = Some s'"
    unfolding for_loop_upt_Suc by (auto split: bind_splits)
  have "I n t"
    using t Suc.prems(2) by (rule Suc.IH) (use Suc.prems(3) in auto)
  then show ?case using b Suc.prems(3) by blast
qed

text \<open>A loop whose iterations all return, under an invariant, returns.\<close>

lemma for_loop_total:
  assumes "I 0 s"
    and "\<And>k t. k < n \<Longrightarrow> I k t \<Longrightarrow> \<exists>t'. body k t = Some t' \<and> I (Suc k) t'"
  shows "\<exists>s'. for_loop body [0..<n] s = Some s' \<and> I n s'"
  using assms
proof (induction n)
  case 0
  then show ?case by simp
next
  case (Suc n)
  have "\<exists>t. for_loop body [0..<n] s = Some t \<and> I n t"
    using Suc.prems(1) by (rule Suc.IH) (use Suc.prems(2) in auto)
  then obtain t where t: "for_loop body [0..<n] s = Some t" and i: "I n t" by blast
  from Suc.prems(2)[OF _ i] obtain t' where "body n t = Some t'" "I (Suc n) t'" by blast
  then show ?case unfolding for_loop_upt_Suc using t by simp
qed

section \<open>Pass 1\<close>

lemma pixels_upto_Suc:
  "pixels_upto comps (Suc k) cc =
     (if comps ! k = cc then pixels_upto comps k cc @ [k] else pixels_upto comps k cc)"
  by (simp add: pixels_upto_def)

lemma count_upto_Suc:
  "count_upto comps (Suc k) cc =
     (if comps ! k = cc then count_upto comps k cc + 1 else count_upto comps k cc)"
  by (simp add: count_upto_def pixels_upto_Suc)

lemma sum_upto_Suc:
  "sum_upto cloud comps (Suc k) cc =
     (if comps ! k = cc then add3 (sum_upto cloud comps k cc) (cloud ! k)
      else sum_upto cloud comps k cc)"
  by (simp add: sum_upto_def pixels_upto_Suc)

lemma length_resize: "length (resize n d v) = n"
  by (simp add: resize_def)

lemma fill_replicate: "fill a v = replicate (length v) a"
  by (simp add: fill_def map_replicate_const)

lemma process_reset:
  "process NUM_PARTS rows cols labels_smoothed comps cloud min_pts s =
     Option.bind
       (for_loop (pass1_body cloud) [0..<length comps]
          (reset_state NUM_PARTS (rows * cols) labels_smoothed comps (max_cluster_size s)))
       (\<lambda>s. Option.bind (clear_invalid s)
          (\<lambda>s. Option.bind (for_loop (pass2_body min_pts) [0..<length (dst_labels s)] s)
             (\<lambda>s. Some (s\<lparr>blob_matrix := number_matrix 0 (blob_matrix s)\<rparr>))))"
  by (cases s)
    (simp add: process_def allocate_buffers_def reset_state_def fill_replicate length_resize
      Let_def map_replicate_const)

lemma map_upt_update:
  assumes "i < n" "f' i = a" "\<And>j. j < n \<Longrightarrow> j \<noteq> i \<Longrightarrow> f' j = f j"
  shows "(map f [0..<n])[i := a] = map f' [0..<n]"
  using assms by (intro nth_equalityI) (auto simp: nth_list_update)

lemma pass1_state_0:
  "pass1_state NUM_PARTS n labels_smoothed comps cloud max_size 0 =
     reset_state NUM_PARTS n labels_smoothed comps max_size"
  by (simp add: pass1_state_def reset_state_def sum_upto_def count_upto_def pixels_upto_def
      map_replicate_const)

lemma pass1_body_step:
  assumes "pass1_body cloud k (pass1_state P n labs comps cloud mx k) = Some t'"
  shows "t' = pass1_state P n labs comps cloud mx (Suc k)"
    and "k < length cloud" and "k < length comps"
    and "-1 \<le> comps ! k" and "comps ! k < int n"
proof -
  let ?s = "pass1_state P n labs comps cloud mx k"
  have d: "dst_labels ?s = comps" by (simp add: pass1_state_def reset_state_def)
  from assms show k1: "k < length cloud" and k2: "k < length comps"
    by (auto simp: pass1_body_def rd_def d split: bind_splits if_splits)
  have lm: "length (means_storage ?s) = n + 1" by (simp add: pass1_state_def)
  from assms k1 k2 show c1: "-1 \<le> comps ! k" and c2: "comps ! k < int n"
    by (auto simp: pass1_body_def rd_def d lm split: bind_splits if_splits)
  have ms: "means_storage ?s = map (\<lambda>i. sum_upto cloud comps k (int i - 1)) [0..<n + 1]"
    and rs: "region_sizes ?s = map (\<lambda>i. count_upto comps k (int i - 1)) [0..<n + 1]"
    by (simp_all add: pass1_state_def del: upt_Suc)
  define i where "i = nat (comps ! k + 1)"
  have i: "i < n + 1" "int i - 1 = comps ! k" using c1 c2 by (auto simp: i_def)
  have "t' = ?s\<lparr>means_storage := (means_storage ?s)[i := add3 (means_storage ?s ! i) (cloud ! k)],
                region_sizes := (region_sizes ?s)[i := region_sizes ?s ! i + 1]\<rparr>"
    using assms k1 k2 c1 c2
    by (auto simp: pass1_body_def rd_def wr_def d lm i_def split: bind_splits if_splits)
  also have "(means_storage ?s)[i := add3 (means_storage ?s ! i) (cloud ! k)] =
      map (\<lambda>i. sum_upto cloud comps (Suc k) (int i - 1)) [0..<n + 1]"
    unfolding ms
    by (rule map_upt_update) (use i in \<open>auto simp: sum_upto_Suc simp del: upt_Suc\<close>)
  also have "(region_sizes ?s)[i := region_sizes ?s ! i + 1] =
      map (\<lambda>i. count_upto comps (Suc k) (int i - 1)) [0..<n + 1]"
    unfolding rs
    by (rule map_upt_update) (use i in \<open>auto simp: count_upto_Suc simp del: upt_Suc\<close>)
  also have "?s\<lparr>means_storage := map (\<lambda>i. sum_upto cloud comps (Suc k) (int i - 1)) [0..<n + 1],
      region_sizes := map (\<lambda>i. count_upto comps (Suc k) (int i - 1)) [0..<n + 1]\<rparr> =
      pass1_state P n labs comps cloud mx (Suc k)"
    by (simp add: pass1_state_def del: upt_Suc)
  finally show "t' = pass1_state P n labs comps cloud mx (Suc k)" .
qed

lemma pass1_body_total:
  assumes "k < length cloud" "k < length comps" "-1 \<le> comps ! k" "comps ! k < int n"
  shows "\<exists>t'. pass1_body cloud k (pass1_state P n labs comps cloud mx k) = Some t'"
  using assms
  by (simp add: pass1_body_def rd_def wr_def pass1_state_def reset_state_def)

text \<open>Pass 1 returns exactly when the cloud covers the pixels and the component ids are in range.\<close>

lemma pass1_result:
  assumes "for_loop (pass1_body cloud) [0..<length comps] (reset_state P n labs comps mx) = Some s'"
  shows "s' = pass1_state P n labs comps cloud mx (length comps)"
    and "length comps \<le> length cloud"
    and "\<forall>cc \<in> set comps. -1 \<le> cc \<and> cc < int n"
proof -
  let ?I = "\<lambda>k t. t = pass1_state P n labs comps cloud mx k \<and> k \<le> length cloud \<and>
                   (\<forall>j<k. -1 \<le> comps ! j \<and> comps ! j < int n)"
  have "?I (length comps) s'"
  proof (rule for_loop_invariant[OF assms, where I = ?I])
    show "?I 0 (reset_state P n labs comps mx)" by (simp add: pass1_state_0)
  next
    fix k t t'
    assume "k < length comps" and i: "?I k t" and b: "pass1_body cloud k t = Some t'"
    from b i have b': "pass1_body cloud k (pass1_state P n labs comps cloud mx k) = Some t'"
      by simp
    from pass1_body_step[OF b'] i show "?I (Suc k) t'"
      by (auto simp: less_Suc_eq)
  qed
  then show "s' = pass1_state P n labs comps cloud mx (length comps)"
    and "length comps \<le> length cloud"
    and "\<forall>cc \<in> set comps. -1 \<le> cc \<and> cc < int n"
    by (auto simp: in_set_conv_nth)
qed

lemma pass1_total:
  assumes "length comps \<le> length cloud" and "\<forall>cc \<in> set comps. -1 \<le> cc \<and> cc < int n"
  shows "for_loop (pass1_body cloud) [0..<length comps] (reset_state P n labs comps mx) =
           Some (pass1_state P n labs comps cloud mx (length comps))"
proof -
  let ?I = "\<lambda>k t. t = pass1_state P n labs comps cloud mx k"
  have "\<exists>s'. for_loop (pass1_body cloud) [0..<length comps] (reset_state P n labs comps mx) = Some s'
          \<and> ?I (length comps) s'"
  proof (rule for_loop_total[where I = ?I])
    show "?I 0 (reset_state P n labs comps mx)" by (simp add: pass1_state_0)
  next
    fix k t
    assume k: "k < length comps" and i: "?I k t"
    have "\<exists>t'. pass1_body cloud k (pass1_state P n labs comps cloud mx k) = Some t'"
      using k assms by (intro pass1_body_total) auto
    then obtain t' where b: "pass1_body cloud k (pass1_state P n labs comps cloud mx k) = Some t'"
      by blast
    from pass1_body_step(1)[OF b] b i
    show "\<exists>t'. pass1_body cloud k t = Some t' \<and> ?I (Suc k) t'" by simp
  qed
  then show ?thesis by auto
qed

lemma clear_invalid_pass1:
  "clear_invalid (pass1_state P n labs comps cloud mx (length comps)) =
     Some (accumulated_state P n labs comps cloud mx)"
proof -
  let ?f = "\<lambda>i. sum_upto cloud comps (length comps) (int i - 1)"
  have "(map ?f [0..<n + 1])[0 := (map ?f [0..<n + 1] ! 0)\<lparr>f3z := 0\<rparr>] =
      map (\<lambda>i. if i = 0 then (component_sum cloud comps (-1))\<lparr>f3z := 0\<rparr>
                else component_sum cloud comps (int i - 1)) [0..<n + 1]"
    by (rule map_upt_update) (auto simp: component_sum_def simp del: upt_Suc)
  then show ?thesis
    by (simp add: clear_invalid_def rd_def wr_def pass1_state_def accumulated_state_def
        component_count_def del: upt_Suc)
qed

section \<open>Pass 2, one iteration\<close>

lemma accumulated_fields:
  "lmap_host (accumulated_state P n labs comps cloud mx) = labs"
  "dst_labels (accumulated_state P n labs comps cloud mx) = comps"
  "max_cluster_size (accumulated_state P n labs comps cloud mx) = mx"
  "remap (accumulated_state P n labs comps cloud mx) = replicate n (-1)"
  "blob_matrix (accumulated_state P n labs comps cloud mx) = replicate P []"
  "length (means_storage (accumulated_state P n labs comps cloud mx)) = n + 1"
  "length (region_sizes (accumulated_state P n labs comps cloud mx)) = n + 1"
  by (simp_all add: accumulated_state_def reset_state_def)

lemma accumulated_slot:
  assumes "-1 \<le> cc" "cc < int n"
  shows "means_storage (accumulated_state P n labs comps cloud mx) ! nat (cc + 1) =
           (if cc = -1 then (component_sum cloud comps (-1))\<lparr>f3z := 0\<rparr>
            else component_sum cloud comps cc)"
    and "region_sizes (accumulated_state P n labs comps cloud mx) ! nat (cc + 1) =
           component_count comps cc"
proof -
  let ?A = "accumulated_state P n labs comps cloud mx"
  have i: "nat (cc + 1) < n + 1" "int (nat (cc + 1)) - 1 = cc" "(nat (cc + 1) = 0) = (cc = -1)"
    using assms by auto
  have ms: "means_storage ?A =
      map (\<lambda>i. if i = 0 then (component_sum cloud comps (-1))\<lparr>f3z := 0\<rparr>
                else component_sum cloud comps (int i - 1)) [0..<n + 1]"
    and rs: "region_sizes ?A = map (\<lambda>i. component_count comps (int i - 1)) [0..<n + 1]"
    by (simp_all add: accumulated_state_def del: upt_Suc)
  show "means_storage ?A ! nat (cc + 1) =
           (if cc = -1 then (component_sum cloud comps (-1))\<lparr>f3z := 0\<rparr>
            else component_sum cloud comps cc)"
    unfolding ms using i by (simp del: upt_Suc)
  show "region_sizes ?A ! nat (cc + 1) = component_count comps cc"
    unfolding rs using i by (simp del: upt_Suc)
qed

text \<open>The test of line 212, on the accumulated state, is \<open>survives\<close>.\<close>

lemma accumulated_test:
  assumes "-1 \<le> cc" "cc < int n"
  shows "(f3z (means_storage (accumulated_state P n labs comps cloud mx) ! nat (cc + 1)) \<noteq> 0 \<and>
          minp \<le> region_sizes (accumulated_state P n labs comps cloud mx) ! nat (cc + 1) \<and>
          region_sizes (accumulated_state P n labs comps cloud mx) ! nat (cc + 1) \<le> mx) =
         survives cloud comps minp mx cc"
  unfolding accumulated_slot[OF assms] by (auto simp: survives_def)

text \<open>
  Creating a blob and appending the pixel to it is appending a blob whose one member is the
  pixel; with it the body of the loop reads as follows.
\<close>

lemma create_then_push:
  "Option.bind (create_blob lab cc m r s) (\<lambda>(ci, s'). push_back_index lab ci k s') =
   Option.bind (rd (blob_matrix s) (int lab)) (\<lambda>row.
     Option.bind (wr (remap s) cc (int (length row))) (\<lambda>rm.
       Option.bind (wr (blob_matrix s) (int lab)
          (row @ [Blob2_new\<lparr>label := lab, mean := div3 m r, indices := [k]\<rparr>])) (\<lambda>bm.
         Some (s\<lparr>remap := rm, blob_matrix := bm\<rparr>))))"
proof -
  have n1: "nat (int n + 1) = Suc n" for n by simp
  show ?thesis
    by (auto simp: create_blob_def push_back_index_def rd_def wr_def resize_def n1 Blob2_new_def
        Let_def split: bind_splits if_splits)
qed

lemma pass2_body_alt:
  "pass2_body min_pts_per_cluster k s = do {
     lab \<leftarrow> rd (lmap_host s) (int k);
     cc \<leftarrow> rd (dst_labels s) (int k);
     m \<leftarrow> rd (means_storage s) (cc + 1);
     r \<leftarrow> rd (region_sizes s) (cc + 1);
     if f3z m \<noteq> 0 \<and> min_pts_per_cluster \<le> r \<and> r \<le> max_cluster_size s then do {
       ccindex \<leftarrow> rd (remap s) cc;
       row \<leftarrow> rd (blob_matrix s) (int lab);
       if ccindex = -1 then do {
         rm \<leftarrow> wr (remap s) cc (int (length row));
         bm \<leftarrow> wr (blob_matrix s) (int lab)
                 (row @ [Blob2_new\<lparr>label := lab, mean := div3 m r, indices := [k]\<rparr>]);
         Some (s\<lparr>remap := rm, blob_matrix := bm\<rparr>)
       } else do {
         b \<leftarrow> rd row ccindex;
         bm \<leftarrow> wr (blob_matrix s) (int lab) (row[nat ccindex := b\<lparr>indices := indices b @ [k]\<rparr>]);
         Some (s\<lparr>blob_matrix := bm\<rparr>)
       }
     } else Some s
   }"
proof -
  have inner: "Option.bind (if ci = -1 then create_blob lab cc m r s else Some (ci, s))
        (\<lambda>(ci, s'). push_back_index lab ci k s') =
      Option.bind (rd (blob_matrix s) (int lab)) (\<lambda>row.
        if ci = -1 then
          Option.bind (wr (remap s) cc (int (length row))) (\<lambda>rm.
            Option.bind (wr (blob_matrix s) (int lab)
              (row @ [Blob2_new\<lparr>label := lab, mean := div3 m r, indices := [k]\<rparr>])) (\<lambda>bm.
                Some (s\<lparr>remap := rm, blob_matrix := bm\<rparr>)))
        else
          Option.bind (rd row ci) (\<lambda>b.
            Option.bind (wr (blob_matrix s) (int lab) (row[nat ci := b\<lparr>indices := indices b @ [k]\<rparr>]))
              (\<lambda>bm. Some (s\<lparr>blob_matrix := bm\<rparr>))))" for ci lab cc m r
  proof (cases "ci = -1")
    case True
    then show ?thesis by (simp add: create_then_push)
  next
    case False
    then show ?thesis by (simp add: push_back_index_def)
  qed
  show ?thesis
    unfolding pass2_body_def inner ..
qed

text \<open>
  An iteration of pass 2 that returns either skips the pixel, creates a blob for its
  component, or appends the pixel to the blob that \<open>remap\<close> and the pixel's label select.
\<close>

lemma pass2_body_cases:
  assumes "pass2_body minp k ((accumulated_state P n labs comps cloud mx)
             \<lparr>remap := rm, blob_matrix := bm\<rparr>) = Some t'"
  obtains
    (skip) "k < length labs" "k < length comps" "-1 \<le> comps ! k" "comps ! k < int n"
      "\<not> survives cloud comps minp mx (comps ! k)"
      "t' = (accumulated_state P n labs comps cloud mx)\<lparr>remap := rm, blob_matrix := bm\<rparr>"
  | (create) "k < length labs" "k < length comps" "0 \<le> comps ! k" "comps ! k < int n"
      "survives cloud comps minp mx (comps ! k)"
      "comps ! k < int (length rm)" "labs ! k < length bm" "rm ! nat (comps ! k) = -1"
      "t' = (accumulated_state P n labs comps cloud mx)
         \<lparr>remap := rm[nat (comps ! k) := int (length (bm ! (labs ! k)))],
          blob_matrix := bm[labs ! k := bm ! (labs ! k) @ [created_blob labs comps cloud k]]\<rparr>"
  | (append) "k < length labs" "k < length comps" "0 \<le> comps ! k" "comps ! k < int n"
      "survives cloud comps minp mx (comps ! k)"
      "comps ! k < int (length rm)" "labs ! k < length bm" "rm ! nat (comps ! k) \<noteq> -1"
      "0 \<le> rm ! nat (comps ! k)" "nat (rm ! nat (comps ! k)) < length (bm ! (labs ! k))"
      "t' = (accumulated_state P n labs comps cloud mx)
         \<lparr>remap := rm,
          blob_matrix := bm[labs ! k := (bm ! (labs ! k))[nat (rm ! nat (comps ! k)) :=
            (bm ! (labs ! k) ! nat (rm ! nat (comps ! k)))
              \<lparr>indices := indices (bm ! (labs ! k) ! nat (rm ! nat (comps ! k))) @ [k]\<rparr>]]\<rparr>"
proof -
  let ?A = "accumulated_state P n labs comps cloud mx"
  let ?t = "?A\<lparr>remap := rm, blob_matrix := bm\<rparr>"
  let ?c = "comps ! k" and ?l = "labs ! k"
  note f = accumulated_fields[of P n labs comps cloud mx]
  from assms have k: "k < length labs" "k < length comps"
    by (auto simp: pass2_body_alt rd_def f split: bind_splits if_splits)
  from assms k have c: "-1 \<le> ?c" "?c < int n"
    by (auto simp: pass2_body_alt rd_def f split: bind_splits if_splits)
  note test = accumulated_test[OF c, of P labs comps cloud mx minp]
  note slot = accumulated_slot[OF c, of P labs comps cloud mx]
  have rds: "rd labs (int k) = Some ?l" "rd comps (int k) = Some ?c"
    "rd (means_storage ?A) (?c + 1) = Some (means_storage ?A ! nat (?c + 1))"
    "rd (region_sizes ?A) (?c + 1) = Some (region_sizes ?A ! nat (?c + 1))"
    using k c by (simp_all add: rd_def f)
  show thesis
  proof (cases "survives cloud comps minp mx ?c")
    case False
    then have cond: "(f3z (means_storage ?A ! nat (?c + 1)) \<noteq> 0 \<and>
          minp \<le> region_sizes ?A ! nat (?c + 1) \<and> region_sizes ?A ! nat (?c + 1) \<le> mx) = False"
      using test by simp
    from assms have "t' = ?t"
      by (simp add: pass2_body_alt rds f cond)
    with k c False show thesis by (rule skip)
  next
    case True
    then have nz: "?c \<noteq> -1" by (simp add: survives_def)
    with c have c0: "0 \<le> ?c" by simp
    from True have tst: "(f3z (means_storage ?A ! nat (?c + 1)) \<noteq> 0 \<and>
          minp \<le> region_sizes ?A ! nat (?c + 1) \<and> region_sizes ?A ! nat (?c + 1) \<le> mx) = True"
      using test by simp
    from assms have body: "Option.bind (rd rm ?c) (\<lambda>ccindex. Option.bind (rd bm (int ?l)) (\<lambda>row.
       if ccindex = -1 then Option.bind (wr rm ?c (int (length row))) (\<lambda>rm'.
            Option.bind (wr bm (int ?l) (row @ [Blob2_new\<lparr>label := ?l,
               mean := div3 (means_storage ?A ! nat (?c + 1)) (region_sizes ?A ! nat (?c + 1)),
               indices := [k]\<rparr>])) (\<lambda>bm'. Some (?t\<lparr>remap := rm', blob_matrix := bm'\<rparr>)))
       else Option.bind (rd row ccindex) (\<lambda>b.
            Option.bind (wr bm (int ?l) (row[nat ccindex := b\<lparr>indices := indices b @ [k]\<rparr>]))
              (\<lambda>bm'. Some (?t\<lparr>blob_matrix := bm'\<rparr>))))) = Some t'"
      by (simp add: pass2_body_alt rds f tst cong: if_cong)
    then have cr: "?c < int (length rm)" and lb: "?l < length bm"
      by (auto simp: rd_def split: bind_splits if_splits)
    have nb: "Blob2_new\<lparr>label := ?l,
               mean := div3 (means_storage ?A ! nat (?c + 1)) (region_sizes ?A ! nat (?c + 1)),
               indices := [k]\<rparr> = created_blob labs comps cloud k"
      using nz by (simp add: slot Blob2_new_def created_blob_def)
    show thesis
    proof (cases "rm ! nat ?c = -1")
      case m1: True
      from body have "t' = ?A\<lparr>remap := rm[nat ?c := int (length (bm ! ?l))],
          blob_matrix := bm[?l := bm ! ?l @ [created_blob labs comps cloud k]]\<rparr>"
        using c0 cr lb m1 unfolding nb by (simp add: rd_def wr_def)
      with k c0 c(2) True cr lb m1 show thesis by (rule create)
    next
      case m1: False
      from body have b2: "Option.bind (rd (bm ! ?l) (rm ! nat ?c)) (\<lambda>b.
            Option.bind (wr bm (int ?l) ((bm ! ?l)[nat (rm ! nat ?c) := b\<lparr>indices := indices b @ [k]\<rparr>]))
              (\<lambda>bm'. Some (?t\<lparr>blob_matrix := bm'\<rparr>))) = Some t'"
        using c0 cr lb m1 by (simp add: rd_def)
      then have ci: "0 \<le> rm ! nat ?c" "nat (rm ! nat ?c) < length (bm ! ?l)"
        by (auto simp: rd_def split: bind_splits if_splits)
      with b2 have "t' = ?A\<lparr>remap := rm,
          blob_matrix := bm[?l := (bm ! ?l)[nat (rm ! nat ?c) :=
            (bm ! ?l ! nat (rm ! nat ?c))
              \<lparr>indices := indices (bm ! ?l ! nat (rm ! nat ?c)) @ [k]\<rparr>]]\<rparr>"
        using lb by (auto simp: rd_def wr_def split: if_splits)
      with k c0 c(2) True cr lb m1 ci show thesis by (rule append)
    qed
  qed
qed

section \<open>Updates of the matrix\<close>

lemma matrix_all_mono:
  assumes "matrix_all Q bm"
    and "\<And>l i. l < length bm \<Longrightarrow> i < length (bm ! l) \<Longrightarrow> Q l i (bm ! l ! i) \<Longrightarrow> Q' l i (bm ! l ! i)"
  shows "matrix_all Q' bm"
  using assms by (simp add: matrix_all_def)

lemma matrix_all_append:
  assumes "matrix_all Q bm" and "l0 < length bm" and "Q' l0 (length (bm ! l0)) nb"
    and "\<And>l i. l < length bm \<Longrightarrow> i < length (bm ! l) \<Longrightarrow> Q l i (bm ! l ! i) \<Longrightarrow> Q' l i (bm ! l ! i)"
  shows "matrix_all Q' (bm[l0 := bm ! l0 @ [nb]])"
  unfolding matrix_all_def
proof (intro allI impI)
  fix l i
  assume l: "l < length (bm[l0 := bm ! l0 @ [nb]])" and i: "i < length (bm[l0 := bm ! l0 @ [nb]] ! l)"
  show "Q' l i (bm[l0 := bm ! l0 @ [nb]] ! l ! i)"
  proof (cases "l = l0")
    case True
    with l i assms(2) have "i < length (bm ! l0) \<or> i = length (bm ! l0)" by auto
    then show ?thesis
      using True assms by (auto simp: matrix_all_def nth_append)
  next
    case False
    with l i assms(1,4) show ?thesis by (simp add: matrix_all_def)
  qed
qed

lemma matrix_all_update:
  assumes "matrix_all Q bm" and "l0 < length bm" and "i0 < length (bm ! l0)" and "Q' l0 i0 b'"
    and "\<And>l i. l < length bm \<Longrightarrow> i < length (bm ! l) \<Longrightarrow> (l, i) \<noteq> (l0, i0) \<Longrightarrow>
           Q l i (bm ! l ! i) \<Longrightarrow> Q' l i (bm ! l ! i)"
  shows "matrix_all Q' (bm[l0 := (bm ! l0)[i0 := b']])"
  unfolding matrix_all_def
proof (intro allI impI)
  fix l i
  assume l: "l < length (bm[l0 := (bm ! l0)[i0 := b']])"
    and i: "i < length (bm[l0 := (bm ! l0)[i0 := b']] ! l)"
  show "Q' l i (bm[l0 := (bm ! l0)[i0 := b']] ! l ! i)"
  proof (cases "l = l0 \<and> i = i0")
    case True
    with assms(2,3,4) show ?thesis by simp
  next
    case False
    then have "(l, i) \<noteq> (l0, i0)" by simp
    moreover have "l < length bm" "i < length (bm ! l)"
      using l i assms(2) by (auto simp: nth_list_update split: if_splits)
    moreover have "bm[l0 := (bm ! l0)[i0 := b']] ! l ! i = bm ! l ! i"
      using False assms(2) by (auto simp: nth_list_update)
    ultimately show ?thesis using assms(1,5) by (simp add: matrix_all_def)
  qed
qed

lemma sum_list_map_update:
  fixes f :: "'a \<Rightarrow> nat"
  shows "i < length xs \<Longrightarrow> sum_list (map f (xs[i := y])) + f (xs ! i) = sum_list (map f xs) + f y"
  by (induction xs arbitrary: i) (auto simp: nth_Cons split: nat.splits)

lemma member_count_append:
  assumes "l < length bm"
  shows "member_count (bm[l := bm ! l @ [nb]]) = member_count bm + length (indices nb)"
proof -
  let ?f = "\<lambda>row. sum_list (map (\<lambda>b. length (indices b)) row)"
  have "sum_list (map ?f (bm[l := bm ! l @ [nb]])) + ?f (bm ! l) =
        sum_list (map ?f bm) + ?f (bm ! l @ [nb])"
    using assms by (rule sum_list_map_update)
  then show ?thesis by (simp add: member_count_def)
qed

lemma member_count_update:
  assumes "l < length bm" and "i < length (bm ! l)"
    and "length (indices b') = Suc (length (indices (bm ! l ! i)))"
  shows "member_count (bm[l := (bm ! l)[i := b']]) = Suc (member_count bm)"
proof -
  let ?g = "\<lambda>b. length (indices b)"
  let ?f = "\<lambda>row. sum_list (map ?g row)"
  have 1: "sum_list (map ?f (bm[l := (bm ! l)[i := b']])) + ?f (bm ! l) =
        sum_list (map ?f bm) + ?f ((bm ! l)[i := b'])"
    using assms(1) by (rule sum_list_map_update)
  have 2: "?f ((bm ! l)[i := b']) + ?g (bm ! l ! i) = ?f (bm ! l) + ?g b'"
    using assms(2) by (rule sum_list_map_update)
  from 1 2 assms(3) show ?thesis by (simp add: member_count_def)
qed

section \<open>Pass 2 keeps its invariant\<close>

lemma blob_ok_mono: "blob_ok labs comps cloud sv k l b \<Longrightarrow> blob_ok labs comps cloud sv (Suc k) l b"
  by (auto simp: blob_ok_def)

lemma blob_ok_first_pixel:
  assumes "blob_ok labs comps cloud sv k l b"
  shows "first_pixel b \<in> set (indices b)" and "first_pixel b < k"
    and "sv (component_of comps b)" and "labs ! first_pixel b = l"
proof -
  from assms show 1: "first_pixel b \<in> set (indices b)"
    by (simp add: blob_ok_def first_pixel_def)
  with assms show "first_pixel b < k" "sv (component_of comps b)" "labs ! first_pixel b = l"
    by (auto simp: blob_ok_def component_of_def)
qed

lemma blob_ok_created:
  assumes "\<forall>j<k. comps ! j \<noteq> comps ! k" and "sv (comps ! k)"
  shows "blob_ok labs comps cloud sv (Suc k) (labs ! k) (created_blob labs comps cloud k)"
  using assms by (simp add: blob_ok_def created_blob_def first_pixel_def component_of_def)

lemma first_pixel_appended:
  "indices b \<noteq> [] \<Longrightarrow> first_pixel (b\<lparr>indices := indices b @ [k]\<rparr>) = first_pixel b"
  by (simp add: first_pixel_def)

lemma blob_ok_appended:
  assumes "blob_ok labs comps cloud sv k l b" and "sv (comps ! k)" and "labs ! k = l"
  shows "blob_ok labs comps cloud sv (Suc k) l (b\<lparr>indices := indices b @ [k]\<rparr>)"
proof -
  from assms(1) have ne: "indices b \<noteq> []" by (simp add: blob_ok_def)
  have fp: "first_pixel (b\<lparr>indices := indices b @ [k]\<rparr>) = first_pixel b"
    using ne by (rule first_pixel_appended)
  have co: "component_of comps (b\<lparr>indices := indices b @ [k]\<rparr>) = component_of comps b"
    by (simp add: component_of_def fp)
  from assms show ?thesis
    unfolding blob_ok_def fp co by (auto simp: sorted_wrt_append)
qed

lemma pass2_inv_skip:
  assumes inv: "pass2_inv P n labs comps cloud sv k rm bm" and nsv: "\<not> sv (comps ! k)"
  shows "pass2_inv P n labs comps cloud sv (Suc k) rm bm"
proof -
  from inv have "matrix_all (\<lambda>l i. blob_ok labs comps cloud sv k l) bm"
    by (simp add: pass2_inv_def)
  then have 1: "matrix_all (\<lambda>l i. blob_ok labs comps cloud sv (Suc k) l) bm"
    by (rule matrix_all_mono) (rule blob_ok_mono)
  from inv have "remap_fresh comps sv k rm" by (simp add: pass2_inv_def)
  then have 2: "remap_fresh comps sv (Suc k) rm"
    unfolding remap_fresh_def using nsv by (auto simp: less_Suc_eq)
  from inv have "remap_points labs comps k rm bm" by (simp add: pass2_inv_def)
  then have 3: "remap_points labs comps (Suc k) rm bm"
    unfolding remap_points_def by (meson less_Suc_eq)
  from inv nsv have 4: "member_count bm = length (filter (\<lambda>j. sv (comps ! j)) [0..<Suc k])"
    by (simp add: pass2_inv_def)
  from inv have "pixels_placed labs comps sv k rm bm" by (simp add: pass2_inv_def)
  then have 5: "pixels_placed labs comps sv (Suc k) rm bm"
    unfolding pixels_placed_def using nsv by (auto simp: less_Suc_eq)
  from inv 1 2 3 4 5 show ?thesis by (simp add: pass2_inv_def)
qed

lemma pass2_inv_create:
  assumes inv: "pass2_inv P n labs comps cloud sv k rm bm" and sv: "sv (comps ! k)"
    and c: "0 \<le> comps ! k" "comps ! k < int (length rm)" and l: "labs ! k < length bm"
    and m1: "rm ! nat (comps ! k) = -1"
  shows "pass2_inv P n labs comps cloud sv (Suc k)
           (rm[nat (comps ! k) := int (length (bm ! (labs ! k)))])
           (bm[labs ! k := bm ! (labs ! k) @ [created_blob labs comps cloud k]])"
proof -
  let ?c = "comps ! k" and ?l = "labs ! k" and ?nb = "created_blob labs comps cloud k"
  let ?rm = "rm[nat ?c := int (length (bm ! ?l))]" and ?bm = "bm[?l := bm ! ?l @ [?nb]]"
  from inv have ok: "matrix_all (\<lambda>l i. blob_ok labs comps cloud sv k l) bm"
    and hs: "heads_sorted bm" and fr: "remap_fresh comps sv k rm"
    and pt: "remap_points labs comps k rm bm"
    and pl: "pixels_placed labs comps sv k rm bm"
    and mc: "member_count bm = length (filter (\<lambda>j. sv (comps ! j)) [0..<k])"
    by (simp_all add: pass2_inv_def)
  from fr c m1 sv have new: "\<forall>j<k. comps ! j \<noteq> ?c"
    unfolding remap_fresh_def by blast
  have 1: "matrix_all (\<lambda>l i. blob_ok labs comps cloud sv (Suc k) l) ?bm"
    using ok l
  proof (rule matrix_all_append)
    show "blob_ok labs comps cloud sv (Suc k) ?l ?nb" using new sv by (rule blob_ok_created)
  qed (rule blob_ok_mono)
  have 2: "heads_sorted ?bm"
    unfolding heads_sorted_def
  proof (intro allI impI)
    fix l' assume l': "l' < length ?bm"
    show "sorted_wrt (<) (map first_pixel (?bm ! l'))"
    proof (cases "l' = ?l")
      case True
      have "\<forall>x \<in> set (bm ! ?l). first_pixel x < k"
      proof
        fix x assume "x \<in> set (bm ! ?l)"
        then obtain i where "i < length (bm ! ?l)" "x = bm ! ?l ! i" by (auto simp: in_set_conv_nth)
        with ok l have "blob_ok labs comps cloud sv k ?l x" by (simp add: matrix_all_def)
        then show "first_pixel x < k" by (rule blob_ok_first_pixel)
      qed
      moreover have "first_pixel ?nb = k" by (simp add: first_pixel_def created_blob_def)
      moreover have "sorted_wrt (<) (map first_pixel (bm ! ?l))"
        using hs l by (simp add: heads_sorted_def)
      ultimately show ?thesis using True l by (simp add: sorted_wrt_append)
    next
      case False
      with l' hs show ?thesis by (simp add: heads_sorted_def)
    qed
  qed
  have 3: "remap_fresh comps sv (Suc k) ?rm"
    unfolding remap_fresh_def
  proof (intro allI impI)
    fix c' assume c': "0 \<le> c' \<and> c' < int (length ?rm)"
    show "(?rm ! nat c' = -1) = (\<not> (sv c' \<and> (\<exists>j<Suc k. comps ! j = c')))"
    proof (cases "c' = ?c")
      case True
      with c sv show ?thesis by auto
    next
      case False
      with c' c have "nat ?c \<noteq> nat c'" by auto
      then have "?rm ! nat c' = rm ! nat c'" by simp
      moreover from False have "(\<exists>j<Suc k. comps ! j = c') = (\<exists>j<k. comps ! j = c')"
        by (auto simp: less_Suc_eq)
      ultimately show ?thesis using fr c' by (simp add: remap_fresh_def)
    qed
  qed
  have 4: "remap_points labs comps (Suc k) ?rm ?bm"
    unfolding remap_points_def
  proof (intro allI impI)
    fix c' assume c': "0 \<le> c' \<and> c' < int (length ?rm) \<and> ?rm ! nat c' \<noteq> -1"
    show "0 \<le> ?rm ! nat c' \<and>
        (\<exists>h<Suc k. comps ! h = c' \<and> labs ! h < length ?bm \<and>
           nat (?rm ! nat c') < length (?bm ! (labs ! h)) \<and>
           first_pixel (?bm ! (labs ! h) ! nat (?rm ! nat c')) = h)"
    proof (cases "c' = ?c")
      case True
      have "?rm ! nat ?c = int (length (bm ! ?l))" using c by simp
      moreover have "?bm ! ?l ! length (bm ! ?l) = ?nb" using l by simp
      moreover have "first_pixel ?nb = k" by (simp add: first_pixel_def created_blob_def)
      ultimately show ?thesis using True l by auto
    next
      case False
      with c' c have "nat ?c \<noteq> nat c'" by auto
      then have same: "?rm ! nat c' = rm ! nat c'" by simp
      with c' pt have p0: "0 \<le> rm ! nat c'" and
        "\<exists>h<k. comps ! h = c' \<and> labs ! h < length bm \<and>
           nat (rm ! nat c') < length (bm ! (labs ! h)) \<and>
           first_pixel (bm ! (labs ! h) ! nat (rm ! nat c')) = h"
        unfolding remap_points_def by auto
      then obtain h where h: "h < k" "comps ! h = c'" "labs ! h < length bm"
        "nat (rm ! nat c') < length (bm ! (labs ! h))"
        "first_pixel (bm ! (labs ! h) ! nat (rm ! nat c')) = h" by blast
      have "nat (rm ! nat c') < length (?bm ! (labs ! h))"
        using h(3,4) by (cases "labs ! h = ?l") auto
      moreover have "?bm ! (labs ! h) ! nat (rm ! nat c') = bm ! (labs ! h) ! nat (rm ! nat c')"
        using h(3,4) by (cases "labs ! h = ?l") (auto simp: nth_append)
      ultimately show ?thesis using h p0 unfolding same 
        by (intro conjI exI[of _ h]) auto
    qed
  qed
  have 5: "member_count ?bm = length (filter (\<lambda>j. sv (comps ! j)) [0..<Suc k])"
    using mc sv l by (simp add: member_count_append created_blob_def)
  have 6: "pixels_placed labs comps sv (Suc k) ?rm ?bm"
    unfolding pixels_placed_def
  proof (intro allI impI)
    fix j assume j: "j < Suc k" and svj: "sv (comps ! j)"
    show "0 \<le> comps ! j \<and> labs ! j < length ?bm \<and>
        nat (?rm ! nat (comps ! j)) < length (?bm ! (labs ! j)) \<and>
        j \<in> set (indices (?bm ! (labs ! j) ! nat (?rm ! nat (comps ! j))))"
    proof (cases "j = k")
      case True
      have "?rm ! nat ?c = int (length (bm ! ?l))" using c by simp
      moreover have "?bm ! ?l ! length (bm ! ?l) = ?nb" using l by simp
      moreover have "indices ?nb = [k]" by (simp add: created_blob_def)
      ultimately show ?thesis using True l c by simp
    next
      case False
      with j have jk: "j < k" by simp
      with pl svj have p: "0 \<le> comps ! j" "labs ! j < length bm"
        "nat (rm ! nat (comps ! j)) < length (bm ! (labs ! j))"
        "j \<in> set (indices (bm ! (labs ! j) ! nat (rm ! nat (comps ! j))))"
        unfolding pixels_placed_def by auto
      from new jk have "comps ! j \<noteq> ?c" by simp
      with p(1) c have "nat ?c \<noteq> nat (comps ! j)" by auto
      then have same: "?rm ! nat (comps ! j) = rm ! nat (comps ! j)" by simp
      have "nat (rm ! nat (comps ! j)) < length (?bm ! (labs ! j))"
        using p(2,3) by (cases "labs ! j = ?l") auto
      moreover have "?bm ! (labs ! j) ! nat (rm ! nat (comps ! j)) =
          bm ! (labs ! j) ! nat (rm ! nat (comps ! j))"
        using p(2,3) by (cases "labs ! j = ?l") (auto simp: nth_append)
      ultimately show ?thesis using p unfolding same by simp
    qed
  qed
  from inv 1 2 3 4 5 6 show ?thesis by (simp add: pass2_inv_def)
qed

lemma pass2_inv_append:
  assumes inv: "pass2_inv P n labs comps cloud sv k rm bm" and sv: "sv (comps ! k)"
    and c: "0 \<le> comps ! k" "comps ! k < int (length rm)" and l: "labs ! k < length bm"
    and m1: "rm ! nat (comps ! k) \<noteq> -1"
    and i: "nat (rm ! nat (comps ! k)) < length (bm ! (labs ! k))"
  shows "pass2_inv P n labs comps cloud sv (Suc k) rm
           (bm[labs ! k := (bm ! (labs ! k))[nat (rm ! nat (comps ! k)) :=
              (bm ! (labs ! k) ! nat (rm ! nat (comps ! k)))
                \<lparr>indices := indices (bm ! (labs ! k) ! nat (rm ! nat (comps ! k))) @ [k]\<rparr>]])"
proof -
  let ?c = "comps ! k" and ?l = "labs ! k"
  let ?i = "nat (rm ! nat ?c)"
  let ?b = "bm ! ?l ! ?i"
  let ?b' = "?b\<lparr>indices := indices ?b @ [k]\<rparr>"
  let ?bm = "bm[?l := (bm ! ?l)[?i := ?b']]"
  from inv have ok: "matrix_all (\<lambda>l i. blob_ok labs comps cloud sv k l) bm"
    and hs: "heads_sorted bm" and fr: "remap_fresh comps sv k rm"
    and pt: "remap_points labs comps k rm bm"
    and pl: "pixels_placed labs comps sv k rm bm"
    and mc: "member_count bm = length (filter (\<lambda>j. sv (comps ! j)) [0..<k])"
    by (simp_all add: pass2_inv_def)
  from ok l i have okb: "blob_ok labs comps cloud sv k ?l ?b" by (simp add: matrix_all_def)
  then have ne: "indices ?b \<noteq> []" by (simp add: blob_ok_def)
  have fp: "first_pixel ?b' = first_pixel ?b" using ne by (rule first_pixel_appended)
  have len: "length (?bm ! l') = length (bm ! l')" if "l' < length bm" for l'
    using that by (cases "l' = ?l") auto
  have fps: "first_pixel (?bm ! l' ! i') = first_pixel (bm ! l' ! i')"
    if "l' < length bm" "i' < length (bm ! l')" for l' i'
    using that fp by (cases "l' = ?l"; cases "i' = ?i") auto
  have 1: "matrix_all (\<lambda>l i. blob_ok labs comps cloud sv (Suc k) l) ?bm"
    using ok l i
  proof (rule matrix_all_update)
    show "blob_ok labs comps cloud sv (Suc k) ?l ?b'"
      using okb sv by (rule blob_ok_appended) simp
  qed (rule blob_ok_mono)
  have 2: "heads_sorted ?bm"
    unfolding heads_sorted_def
  proof (intro allI impI)
    fix l' assume "l' < length ?bm"
    then have l': "l' < length bm" by simp
    have "map first_pixel (?bm ! l') = map first_pixel (bm ! l')"
      using l' by (intro nth_equalityI) (simp_all add: len fps)
    then show "sorted_wrt (<) (map first_pixel (?bm ! l'))"
      using hs l' by (simp add: heads_sorted_def)
  qed
  have 3: "remap_fresh comps sv (Suc k) rm"
    unfolding remap_fresh_def
  proof (intro allI impI)
    fix c' assume c': "0 \<le> c' \<and> c' < int (length rm)"
    show "(rm ! nat c' = -1) = (\<not> (sv c' \<and> (\<exists>j<Suc k. comps ! j = c')))"
    proof (cases "c' = ?c")
      case True
      with m1 sv show ?thesis by auto
    next
      case False
      then have "(\<exists>j<Suc k. comps ! j = c') = (\<exists>j<k. comps ! j = c')"
        by (auto simp: less_Suc_eq)
      then show ?thesis using fr c' by (simp add: remap_fresh_def)
    qed
  qed
  have 4: "remap_points labs comps (Suc k) rm ?bm"
    unfolding remap_points_def
  proof (intro allI impI)
    fix c' assume c': "0 \<le> c' \<and> c' < int (length rm) \<and> rm ! nat c' \<noteq> -1"
    with pt have p0: "0 \<le> rm ! nat c'" and
      "\<exists>h<k. comps ! h = c' \<and> labs ! h < length bm \<and>
         nat (rm ! nat c') < length (bm ! (labs ! h)) \<and>
         first_pixel (bm ! (labs ! h) ! nat (rm ! nat c')) = h"
      unfolding remap_points_def by auto
    then obtain h where h: "h < k" "comps ! h = c'" "labs ! h < length bm"
      "nat (rm ! nat c') < length (bm ! (labs ! h))"
      "first_pixel (bm ! (labs ! h) ! nat (rm ! nat c')) = h" by blast
    from h show "0 \<le> rm ! nat c' \<and>
        (\<exists>h<Suc k. comps ! h = c' \<and> labs ! h < length ?bm \<and>
           nat (rm ! nat c') < length (?bm ! (labs ! h)) \<and>
           first_pixel (?bm ! (labs ! h) ! nat (rm ! nat c')) = h)"
      using p0 by (intro conjI exI[of _ h]) (simp_all add: len fps)
  qed
  have 5: "member_count ?bm = length (filter (\<lambda>j. sv (comps ! j)) [0..<Suc k])"
    using mc sv l i by (simp add: member_count_update)
  have sub: "set (indices (bm ! l' ! i')) \<subseteq> set (indices (?bm ! l' ! i'))"
    if "l' < length bm" "i' < length (bm ! l')" for l' i'
    using that by (cases "l' = ?l"; cases "i' = ?i") auto
  have 6: "pixels_placed labs comps sv (Suc k) rm ?bm"
    unfolding pixels_placed_def
  proof (intro allI impI)
    fix j assume j: "j < Suc k" and svj: "sv (comps ! j)"
    show "0 \<le> comps ! j \<and> labs ! j < length ?bm \<and>
        nat (rm ! nat (comps ! j)) < length (?bm ! (labs ! j)) \<and>
        j \<in> set (indices (?bm ! (labs ! j) ! nat (rm ! nat (comps ! j))))"
    proof (cases "j = k")
      case True
      have "?bm ! ?l ! ?i = ?b'" using l i by simp
      then show ?thesis using True l i c by (simp add: len)
    next
      case False
      with j have jk: "j < k" by simp
      with pl svj have p: "0 \<le> comps ! j" "labs ! j < length bm"
        "nat (rm ! nat (comps ! j)) < length (bm ! (labs ! j))"
        "j \<in> set (indices (bm ! (labs ! j) ! nat (rm ! nat (comps ! j))))"
        unfolding pixels_placed_def by auto
      from sub[OF p(2,3)] p show ?thesis by (auto simp: len)
    qed
  qed
  from inv 1 2 3 4 5 6 show ?thesis by (simp add: pass2_inv_def)
qed

text \<open>Pass 2 changes \<open>remap\<close> and \<open>blob_matrix\<close> only, and keeps the invariant.\<close>

lemma pass2_body_inv:
  assumes "pass2_body minp k ((accumulated_state P n labs comps cloud mx)
             \<lparr>remap := rm, blob_matrix := bm\<rparr>) = Some t'"
    and "pass2_inv P n labs comps cloud (survives cloud comps minp mx) k rm bm"
  shows "\<exists>rm' bm'. t' = (accumulated_state P n labs comps cloud mx)
             \<lparr>remap := rm', blob_matrix := bm'\<rparr> \<and>
           pass2_inv P n labs comps cloud (survives cloud comps minp mx) (Suc k) rm' bm'"
  using assms(1)
proof (cases rule: pass2_body_cases)
  case skip
  with assms(2) show ?thesis by (blast intro: pass2_inv_skip)
next
  case create
  with assms(2) show ?thesis by (blast intro: pass2_inv_create)
next
  case append
  with assms(2) show ?thesis by (blast intro: pass2_inv_append)
qed

lemma pass2_inv_0:
  "pass2_inv P n labs comps cloud sv 0 (replicate n (-1)) (replicate P [])"
  by (auto simp: pass2_inv_def matrix_all_def heads_sorted_def remap_fresh_def remap_points_def
      pixels_placed_def member_count_def)

lemma accumulated_state_self:
  "(accumulated_state P n labs comps cloud mx)\<lparr>remap := replicate n (-1), blob_matrix := replicate P []\<rparr>
     = accumulated_state P n labs comps cloud mx"
  by (simp add: accumulated_state_def reset_state_def)

lemma pass2_result:
  assumes "for_loop (pass2_body minp) [0..<m] (accumulated_state P n labs comps cloud mx) = Some s'"
  shows "\<exists>rm bm. s' = (accumulated_state P n labs comps cloud mx)\<lparr>remap := rm, blob_matrix := bm\<rparr> \<and>
           pass2_inv P n labs comps cloud (survives cloud comps minp mx) m rm bm"
proof (rule for_loop_invariant[OF assms, where I = "\<lambda>k t.
    \<exists>rm bm. t = (accumulated_state P n labs comps cloud mx)\<lparr>remap := rm, blob_matrix := bm\<rparr> \<and>
           pass2_inv P n labs comps cloud (survives cloud comps minp mx) k rm bm"])
  show "\<exists>rm bm. accumulated_state P n labs comps cloud mx =
          (accumulated_state P n labs comps cloud mx)\<lparr>remap := rm, blob_matrix := bm\<rparr> \<and>
          pass2_inv P n labs comps cloud (survives cloud comps minp mx) 0 rm bm"
    using pass2_inv_0 accumulated_state_self by metis
next
  fix k t t'
  assume "\<exists>rm bm. t = (accumulated_state P n labs comps cloud mx)\<lparr>remap := rm, blob_matrix := bm\<rparr> \<and>
           pass2_inv P n labs comps cloud (survives cloud comps minp mx) k rm bm"
    and "pass2_body minp k t = Some t'"
  then show "\<exists>rm bm. t' = (accumulated_state P n labs comps cloud mx)\<lparr>remap := rm, blob_matrix := bm\<rparr> \<and>
           pass2_inv P n labs comps cloud (survives cloud comps minp mx) (Suc k) rm bm"
    using pass2_body_inv by blast
qed

section \<open>Finalisation\<close>

lemma number_row_Cons:
  "number_row i b (x # xs) =
     (x\<lparr>id' := i, lid := b\<rparr> # fst (number_row (Suc i) (Suc b) xs),
      snd (number_row (Suc i) (Suc b) xs))"
  by (simp split: prod.splits)

lemma number_row_snd: "snd (number_row i b xs) = i + length xs"
  by (induction xs arbitrary: i b) (simp_all add: number_row_Cons del: number_row.simps(2))

lemma length_number_row: "length (fst (number_row i b xs)) = length xs"
  by (induction xs arbitrary: i b) (simp_all add: number_row_Cons del: number_row.simps(2))

lemma number_row_nth:
  "j < length xs \<Longrightarrow> fst (number_row i b xs) ! j = (xs ! j)\<lparr>id' := i + j, lid := b + j\<rparr>"
proof (induction xs arbitrary: i b j)
  case Nil
  then show ?case by simp
next
  case (Cons x xs)
  show ?case
  proof (cases j)
    case 0
    then show ?thesis by (simp add: number_row_Cons del: number_row.simps(2))
  next
    case (Suc j')
    with Cons.prems have "j' < length xs" by simp
    from Cons.IH[OF this, of "Suc i" "Suc b"] Suc show ?thesis
      by (simp add: number_row_Cons del: number_row.simps(2))
  qed
qed

lemma number_row_ids: "map id' (fst (number_row i b xs)) = [i..<i + length xs]"
  by (rule nth_equalityI) (simp_all add: length_number_row number_row_nth)

lemma length_number_matrix: "length (number_matrix i bm) = length bm"
  by (induction bm arbitrary: i) (auto split: prod.splits)

lemma number_matrix_Cons:
  "number_matrix i (row # rows) = fst (number_row i 0 row) # number_matrix (i + length row) rows"
  using number_row_snd[of i 0 row] by (cases "number_row i 0 row") simp

lemma number_matrix_nth:
  "l < length bm \<Longrightarrow> number_matrix i bm ! l = fst (number_row (i + length (concat (take l bm))) 0 (bm ! l))"
proof (induction bm arbitrary: i l)
  case Nil
  then show ?case by simp
next
  case (Cons row rows)
  show ?case
  proof (cases l)
    case 0
    then show ?thesis by (simp add: number_matrix_Cons del: number_matrix.simps)
  next
    case (Suc l')
    with Cons.prems have "l' < length rows" by simp
    from Cons.IH[OF this, of "i + length row"] Suc show ?thesis
      by (simp add: number_matrix_Cons add.assoc del: number_matrix.simps)
  qed
qed

lemma length_number_matrix_nth:
  "l < length bm \<Longrightarrow> length (number_matrix i bm ! l) = length (bm ! l)"
  by (simp add: number_matrix_nth length_number_row)

lemma number_matrix_nth_nth:
  "l < length bm \<Longrightarrow> j < length (bm ! l) \<Longrightarrow>
     number_matrix i bm ! l ! j =
       (bm ! l ! j)\<lparr>id' := i + length (concat (take l bm)) + j, lid := j\<rparr>"
  by (simp add: number_matrix_nth number_row_nth)

lemma number_matrix_ids:
  "map id' (concat (number_matrix i bm)) = [i..<i + length (concat bm)]"
proof (induction bm arbitrary: i)
  case Nil
  then show ?case by simp
next
  case (Cons row rows)
  have "[i..<i + length row] @ [i + length row..<i + length row + length (concat rows)] =
        [i..<i + length row + length (concat rows)]"
    by (metis le_add1 upt_add_eq_append)
  then show ?case
    by (simp add: number_matrix_Cons number_row_ids Cons.IH add.assoc del: number_matrix.simps)
qed

text \<open>Numbering changes \<open>id\<close> and \<open>lid\<close> only.\<close>

lemma number_matrix_fields:
  assumes "l < length bm" "j < length (bm ! l)"
  shows "label (number_matrix i bm ! l ! j) = label (bm ! l ! j)"
    and "mean (number_matrix i bm ! l ! j) = mean (bm ! l ! j)"
    and "indices (number_matrix i bm ! l ! j) = indices (bm ! l ! j)"
    and "lid (number_matrix i bm ! l ! j) = j"
    and "first_pixel (number_matrix i bm ! l ! j) = first_pixel (bm ! l ! j)"
    and "component_of comps (number_matrix i bm ! l ! j) = component_of comps (bm ! l ! j)"
  using assms by (simp_all add: number_matrix_nth_nth first_pixel_def component_of_def)

section \<open>The whole of \<open>process\<close>\<close>

text \<open>
  When \<open>process\<close> returns, the cloud covers the pixels, the component ids are in range, and
  the blob matrix is the numbering of a matrix that satisfies the invariant of pass 2 at
  the last pixel.
\<close>

lemma process_result:
  assumes "process P rows cols labs comps cloud minp s = Some s'"
  obtains rm bm where
    "pass2_inv P (rows * cols) labs comps cloud
       (survives cloud comps minp (max_cluster_size s)) (length comps) rm bm"
    and "blob_matrix s' = number_matrix 0 bm"
    and "length comps \<le> length cloud"
    and "\<forall>cc \<in> set comps. -1 \<le> cc \<and> cc < int (rows * cols)"
proof -
  let ?n = "rows * cols" and ?mx = "max_cluster_size s"
  from assms obtain s1 s2 s3 where
    1: "for_loop (pass1_body cloud) [0..<length comps] (reset_state P ?n labs comps ?mx) = Some s1"
    and 2: "clear_invalid s1 = Some s2"
    and 3: "for_loop (pass2_body minp) [0..<length (dst_labels s2)] s2 = Some s3"
    and 4: "s' = s3\<lparr>blob_matrix := number_matrix 0 (blob_matrix s3)\<rparr>"
    unfolding process_reset by (auto split: bind_splits)
  note p1 = pass1_result[OF 1]
  from 2 p1(1) have s2: "s2 = accumulated_state P ?n labs comps cloud ?mx"
    by (simp add: clear_invalid_pass1)
  from 3 have "for_loop (pass2_body minp) [0..<length comps]
      (accumulated_state P ?n labs comps cloud ?mx) = Some s3"
    by (simp add: s2 accumulated_fields)
  from pass2_result[OF this] obtain rm bm where
    "s3 = (accumulated_state P ?n labs comps cloud ?mx)\<lparr>remap := rm, blob_matrix := bm\<rparr>"
    and inv: "pass2_inv P ?n labs comps cloud (survives cloud comps minp ?mx) (length comps) rm bm"
    by blast
  with 4 have "blob_matrix s' = number_matrix 0 bm" by simp
  with inv show thesis using p1(2,3) by (rule that)
qed

section \<open>Frames with one label per component\<close>

lemma label_homogeneous_bound:
  "label_homogeneous P labs comps \<Longrightarrow> k < length comps \<Longrightarrow> comps ! k \<noteq> -1 \<Longrightarrow> labs ! k < P"
  unfolding label_homogeneous_def by blast

lemma label_homogeneous_same:
  "label_homogeneous P labs comps \<Longrightarrow> k < length comps \<Longrightarrow> comps ! k \<noteq> -1 \<Longrightarrow>
     j < length comps \<Longrightarrow> comps ! j = comps ! k \<Longrightarrow> labs ! j = labs ! k"
  unfolding label_homogeneous_def by blast

lemma first_pixel_unique:
  assumes "comps ! h1 = comps ! h2"
    and "\<forall>j<h1. comps ! j \<noteq> comps ! h1" and "\<forall>j<h2. comps ! j \<noteq> comps ! h2"
  shows "h1 = (h2 :: nat)"
  using assms by (metis linorder_neqE_nat)

text \<open>Two blobs of one component are the same blob.\<close>

lemma blob_of_component_unique:
  assumes ok: "matrix_all (\<lambda>l i. blob_ok labs comps cloud sv k l) bm" and hs: "heads_sorted bm"
    and p1: "l1 < length bm" "i1 < length (bm ! l1)"
    and p2: "l2 < length bm" "i2 < length (bm ! l2)"
    and eq: "component_of comps (bm ! l1 ! i1) = component_of comps (bm ! l2 ! i2)"
  shows "l1 = l2 \<and> i1 = i2"
proof -
  let ?b1 = "bm ! l1 ! i1" and ?b2 = "bm ! l2 ! i2"
  from ok p1 have ok1: "blob_ok labs comps cloud sv k l1 ?b1" by (simp add: matrix_all_def)
  from ok p2 have ok2: "blob_ok labs comps cloud sv k l2 ?b2" by (simp add: matrix_all_def)
  have "first_pixel ?b1 = first_pixel ?b2"
    using eq ok1 ok2 unfolding blob_ok_def component_of_def
    by (intro first_pixel_unique[of comps]) auto
  then have fp: "first_pixel ?b1 = first_pixel ?b2" .
  with blob_ok_first_pixel(4)[OF ok1] blob_ok_first_pixel(4)[OF ok2] have l: "l1 = l2" by simp
  have srt: "sorted_wrt (<) (map first_pixel (bm ! l1))"
    using hs p1 by (simp add: heads_sorted_def)
  have "i1 = i2"
  proof (rule ccontr)
    assume "i1 \<noteq> i2"
    then consider "i1 < i2" | "i2 < i1" by linarith
    then show False
    proof cases
      case 1
      with p2 l have "map first_pixel (bm ! l1) ! i1 < map first_pixel (bm ! l1) ! i2"
        using sorted_wrt_nth_less[OF srt, of i1 i2] by simp
      with fp l p1 p2 show False by simp
    next
      case 2
      with p1 l have "map first_pixel (bm ! l1) ! i2 < map first_pixel (bm ! l1) ! i1"
        using sorted_wrt_nth_less[OF srt, of i2 i1] by simp
      with fp l p1 p2 show False by simp
    qed
  qed
  with l show ?thesis by simp
qed

lemma pixels_upto_other: "comps ! k \<noteq> c \<Longrightarrow> pixels_upto comps (Suc k) c = pixels_upto comps k c"
  by (simp add: pixels_upto_Suc)

lemma pixels_upto_new: "\<forall>j<k. comps ! j \<noteq> c \<Longrightarrow> pixels_upto comps k c = []"
  by (simp add: pixels_upto_def)

lemma blob_full_other:
  assumes "blob_full comps k b" and "comps ! k \<noteq> component_of comps b"
  shows "blob_full comps (Suc k) b"
  using assms by (simp add: blob_full_def pixels_upto_other)

lemma full_skip:
  assumes ok: "matrix_all (\<lambda>l i. blob_ok labs comps cloud sv k l) bm"
    and full: "matrix_all (\<lambda>l i. blob_full comps k) bm" and nsv: "\<not> sv (comps ! k)"
  shows "matrix_all (\<lambda>l i. blob_full comps (Suc k)) bm"
  using full
proof (rule matrix_all_mono)
  fix l i assume "l < length bm" "i < length (bm ! l)" and f: "blob_full comps k (bm ! l ! i)"
  with ok have "blob_ok labs comps cloud sv k l (bm ! l ! i)" by (simp add: matrix_all_def)
  then have "sv (component_of comps (bm ! l ! i))" by (rule blob_ok_first_pixel)
  with nsv have "comps ! k \<noteq> component_of comps (bm ! l ! i)" by auto
  with f show "blob_full comps (Suc k) (bm ! l ! i)" by (rule blob_full_other)
qed

lemma full_create:
  assumes ok: "matrix_all (\<lambda>l i. blob_ok labs comps cloud sv k l) bm"
    and full: "matrix_all (\<lambda>l i. blob_full comps k) bm"
    and new: "\<forall>j<k. comps ! j \<noteq> comps ! k" and l: "labs ! k < length bm"
  shows "matrix_all (\<lambda>l i. blob_full comps (Suc k))
           (bm[labs ! k := bm ! (labs ! k) @ [created_blob labs comps cloud k]])"
  using full l
proof (rule matrix_all_append)
  show "blob_full comps (Suc k) (created_blob labs comps cloud k)"
    using new
    by (simp add: blob_full_def created_blob_def component_of_def first_pixel_def
        pixels_upto_Suc pixels_upto_new)
next
  fix l i assume "l < length bm" "i < length (bm ! l)" and f: "blob_full comps k (bm ! l ! i)"
  with ok have b: "blob_ok labs comps cloud sv k l (bm ! l ! i)" by (simp add: matrix_all_def)
  have "first_pixel (bm ! l ! i) < k" using b by (rule blob_ok_first_pixel)
  with new have "comps ! k \<noteq> component_of comps (bm ! l ! i)"
    by (auto simp: component_of_def)
  with f show "blob_full comps (Suc k) (bm ! l ! i)" by (rule blob_full_other)
qed

lemma full_append:
  assumes inv: "pass2_inv P n labs comps cloud sv k rm bm"
    and full: "matrix_all (\<lambda>l i. blob_full comps k) bm"
    and hom: "label_homogeneous P labs comps" and k: "k < length comps"
    and sv: "sv (comps ! k)" and nz: "comps ! k \<noteq> -1"
    and c: "0 \<le> comps ! k" "comps ! k < int (length rm)" and l: "labs ! k < length bm"
    and m1: "rm ! nat (comps ! k) \<noteq> -1"
    and i: "nat (rm ! nat (comps ! k)) < length (bm ! (labs ! k))"
  shows "matrix_all (\<lambda>l i. blob_full comps (Suc k))
           (bm[labs ! k := (bm ! (labs ! k))[nat (rm ! nat (comps ! k)) :=
              (bm ! (labs ! k) ! nat (rm ! nat (comps ! k)))
                \<lparr>indices := indices (bm ! (labs ! k) ! nat (rm ! nat (comps ! k))) @ [k]\<rparr>]])"
proof -
  let ?c = "comps ! k" and ?l = "labs ! k"
  let ?i = "nat (rm ! nat ?c)"
  let ?b = "bm ! ?l ! ?i"
  from inv have ok: "matrix_all (\<lambda>l i. blob_ok labs comps cloud sv k l) bm"
    and hs: "heads_sorted bm" and pt: "remap_points labs comps k rm bm"
    by (simp_all add: pass2_inv_def)
  from pt c m1 obtain h where h: "h < k" "comps ! h = ?c" "first_pixel (bm ! (labs ! h) ! ?i) = h"
    unfolding remap_points_def by blast
  from h(1) k have "h < length comps" by simp
  with hom k nz have "labs ! h = ?l" using h(2) by (rule label_homogeneous_same)
  with h have cb: "component_of comps ?b = ?c" by (simp add: component_of_def)
  from ok l i have okb: "blob_ok labs comps cloud sv k ?l ?b" by (simp add: matrix_all_def)
  then have ne: "indices ?b \<noteq> []" by (simp add: blob_ok_def)
  from full l i have fb: "blob_full comps k ?b" by (simp add: matrix_all_def)
  show ?thesis
    using full l i
  proof (rule matrix_all_update)
    have "component_of comps (?b\<lparr>indices := indices ?b @ [k]\<rparr>) = ?c"
      using cb ne by (simp add: component_of_def first_pixel_def)
    then show "blob_full comps (Suc k) (?b\<lparr>indices := indices ?b @ [k]\<rparr>)"
      using fb cb by (simp add: blob_full_def pixels_upto_Suc)
  next
    fix l' i' assume p: "l' < length bm" "i' < length (bm ! l')" and ne: "(l', i') \<noteq> (?l, ?i)"
      and f: "blob_full comps k (bm ! l' ! i')"
    have "component_of comps (bm ! l' ! i') \<noteq> ?c"
    proof
      assume "component_of comps (bm ! l' ! i') = ?c"
      with cb have "component_of comps (bm ! l' ! i') = component_of comps ?b" by simp
      with ok hs p l i have "l' = ?l \<and> i' = ?i" by (rule blob_of_component_unique)
      with ne show False by simp
    qed
    then have "comps ! k \<noteq> component_of comps (bm ! l' ! i')" by auto
    with f show "blob_full comps (Suc k) (bm ! l' ! i')" by (rule blob_full_other)
  qed
qed

text \<open>An iteration of pass 2 returns when the accesses of lines 214 to 227 are in range.\<close>

lemma pass2_body_defined:
  assumes k: "k < length labs" "k < length comps" and c: "-1 \<le> comps ! k" "comps ! k < int n"
    and acc: "survives cloud comps minp mx (comps ! k) \<Longrightarrow>
       comps ! k < int (length rm) \<and> labs ! k < length bm \<and>
       (rm ! nat (comps ! k) \<noteq> -1 \<longrightarrow>
          0 \<le> rm ! nat (comps ! k) \<and> nat (rm ! nat (comps ! k)) < length (bm ! (labs ! k)))"
  shows "\<exists>t'. pass2_body minp k ((accumulated_state P n labs comps cloud mx)
             \<lparr>remap := rm, blob_matrix := bm\<rparr>) = Some t'"
proof -
  let ?A = "accumulated_state P n labs comps cloud mx"
  let ?c = "comps ! k" and ?l = "labs ! k"
  note f = accumulated_fields[of P n labs comps cloud mx]
  note test = accumulated_test[OF c, of P labs comps cloud mx minp]
  have rds: "rd labs (int k) = Some ?l" "rd comps (int k) = Some ?c"
    "rd (means_storage ?A) (?c + 1) = Some (means_storage ?A ! nat (?c + 1))"
    "rd (region_sizes ?A) (?c + 1) = Some (region_sizes ?A ! nat (?c + 1))"
    using k c by (simp_all add: rd_def f)
  show ?thesis
  proof (cases "survives cloud comps minp mx ?c")
    case False
    then have cond: "(f3z (means_storage ?A ! nat (?c + 1)) \<noteq> 0 \<and>
          minp \<le> region_sizes ?A ! nat (?c + 1) \<and> region_sizes ?A ! nat (?c + 1) \<le> mx) = False"
      using test by simp
    show ?thesis by (simp add: pass2_body_alt rds f cond)
  next
    case True
    then have tst: "(f3z (means_storage ?A ! nat (?c + 1)) \<noteq> 0 \<and>
          minp \<le> region_sizes ?A ! nat (?c + 1) \<and> region_sizes ?A ! nat (?c + 1) \<le> mx) = True"
      using test by simp
    from True c have c0: "0 \<le> ?c" by (simp add: survives_def)
    from acc[OF True] have a: "?c < int (length rm)" "?l < length bm"
      "rm ! nat ?c \<noteq> -1 \<Longrightarrow> 0 \<le> rm ! nat ?c \<and> rm ! nat ?c < int (length (bm ! ?l))"
      by auto
    show ?thesis
    proof (cases "rm ! nat ?c = -1")
      case True
      then show ?thesis using c0 a(1,2) k c by (simp add: pass2_body_alt rds f tst rd_def wr_def)
    next
      case False
      from a(3)[OF this] False show ?thesis
        using c0 a(1,2) k c by (simp add: pass2_body_alt rds f tst rd_def wr_def)
    qed
  qed
qed

text \<open>The invariant of pass 2 for a frame with one label per component.\<close>

lemma pass2_body_homogeneous:
  assumes k: "k < length labs" "k < length comps" and c: "-1 \<le> comps ! k" "comps ! k < int n"
    and hom: "label_homogeneous P labs comps"
    and inv: "pass2_inv P n labs comps cloud (survives cloud comps minp mx) k rm bm"
    and full: "matrix_all (\<lambda>l i. blob_full comps k) bm"
  shows "\<exists>rm' bm'. pass2_body minp k ((accumulated_state P n labs comps cloud mx)
             \<lparr>remap := rm, blob_matrix := bm\<rparr>) =
           Some ((accumulated_state P n labs comps cloud mx)\<lparr>remap := rm', blob_matrix := bm'\<rparr>) \<and>
           pass2_inv P n labs comps cloud (survives cloud comps minp mx) (Suc k) rm' bm' \<and>
           matrix_all (\<lambda>l i. blob_full comps (Suc k)) bm'"
proof -
  let ?sv = "survives cloud comps minp mx"
  let ?c = "comps ! k" and ?l = "labs ! k"
  from inv have len: "length rm = n" "length bm = P"
    and ok: "matrix_all (\<lambda>l i. blob_ok labs comps cloud ?sv k l) bm"
    and fr: "remap_fresh comps ?sv k rm"
    and pt: "remap_points labs comps k rm bm"
    by (simp_all add: pass2_inv_def)
  have "\<exists>t'. pass2_body minp k ((accumulated_state P n labs comps cloud mx)
             \<lparr>remap := rm, blob_matrix := bm\<rparr>) = Some t'"
    using k c
  proof (rule pass2_body_defined)
    assume s: "?sv ?c"
    then have nz: "?c \<noteq> -1" by (simp add: survives_def)
    with c have c0: "0 \<le> ?c" by simp
    from hom k(2) nz have l: "?l < P" by (rule label_homogeneous_bound)
    have "0 \<le> rm ! nat ?c \<and> nat (rm ! nat ?c) < length (bm ! ?l)" if m: "rm ! nat ?c \<noteq> -1"
    proof -
      from pt c0 c(2) m len obtain h where p0: "0 \<le> rm ! nat ?c" and h: "h < k" "comps ! h = ?c"
        "nat (rm ! nat ?c) < length (bm ! (labs ! h))"
        unfolding remap_points_def by blast
      from h(1) k(2) have "h < length comps" by simp
      with hom k(2) nz have "labs ! h = ?l" using h(2) by (rule label_homogeneous_same)
      with p0 h show ?thesis by simp
    qed
    with c l len show "?c < int (length rm) \<and> ?l < length bm \<and>
       (rm ! nat ?c \<noteq> -1 \<longrightarrow> 0 \<le> rm ! nat ?c \<and> nat (rm ! nat ?c) < length (bm ! ?l))"
      by simp
  qed
  then obtain t' where t': "pass2_body minp k ((accumulated_state P n labs comps cloud mx)
             \<lparr>remap := rm, blob_matrix := bm\<rparr>) = Some t'" by blast
  from t' show ?thesis
  proof (cases rule: pass2_body_cases)
    case skip
    have "pass2_inv P n labs comps cloud ?sv (Suc k) rm bm"
      using inv skip(5) by (rule pass2_inv_skip)
    moreover have "matrix_all (\<lambda>l i. blob_full comps (Suc k)) bm"
      using ok full skip(5) by (rule full_skip)
    moreover have "pass2_body minp k ((accumulated_state P n labs comps cloud mx)
             \<lparr>remap := rm, blob_matrix := bm\<rparr>) =
           Some ((accumulated_state P n labs comps cloud mx)\<lparr>remap := rm, blob_matrix := bm\<rparr>)"
      using t' skip(6) by simp
    ultimately show ?thesis by (intro exI[of _ rm] exI[of _ bm] conjI)
  next
    case create
    let ?rm = "rm[nat ?c := int (length (bm ! ?l))]"
    let ?bm = "bm[?l := bm ! ?l @ [created_blob labs comps cloud k]]"
    from fr create(3,5,6,8) have new: "\<forall>j<k. comps ! j \<noteq> ?c"
      unfolding remap_fresh_def by blast
    have "pass2_inv P n labs comps cloud ?sv (Suc k) ?rm ?bm"
      using inv create(5,3,6,7,8) by (rule pass2_inv_create)
    moreover have "matrix_all (\<lambda>l i. blob_full comps (Suc k)) ?bm"
      using ok full new create(7) by (rule full_create)
    moreover have "pass2_body minp k ((accumulated_state P n labs comps cloud mx)
             \<lparr>remap := rm, blob_matrix := bm\<rparr>) =
           Some ((accumulated_state P n labs comps cloud mx)\<lparr>remap := ?rm, blob_matrix := ?bm\<rparr>)"
      using t' create(9) by simp
    ultimately show ?thesis by (intro exI[of _ ?rm] exI[of _ ?bm] conjI)
  next
    case append
    then have nz: "?c \<noteq> -1" by (simp add: survives_def)
    let ?bm = "bm[?l := (bm ! ?l)[nat (rm ! nat ?c) :=
              (bm ! ?l ! nat (rm ! nat ?c))
                \<lparr>indices := indices (bm ! ?l ! nat (rm ! nat ?c)) @ [k]\<rparr>]]"
    have "pass2_inv P n labs comps cloud ?sv (Suc k) rm ?bm"
      using inv append(5,3,6,7,8,10) by (rule pass2_inv_append)
    moreover have "matrix_all (\<lambda>l i. blob_full comps (Suc k)) ?bm"
      using inv full hom k(2) append(5) nz append(3,6,7,8,10) by (rule full_append)
    moreover have "pass2_body minp k ((accumulated_state P n labs comps cloud mx)
             \<lparr>remap := rm, blob_matrix := bm\<rparr>) =
           Some ((accumulated_state P n labs comps cloud mx)\<lparr>remap := rm, blob_matrix := ?bm\<rparr>)"
      using t' append(11) by simp
    ultimately show ?thesis by (intro exI[of _ rm] exI[of _ ?bm] conjI)
  qed
qed

lemma pass2_total:
  assumes len: "length labs = length comps" and rng: "\<forall>cc \<in> set comps. -1 \<le> cc \<and> cc < int n"
    and hom: "label_homogeneous P labs comps"
  shows "\<exists>rm bm. for_loop (pass2_body minp) [0..<length comps]
             (accumulated_state P n labs comps cloud mx) =
           Some ((accumulated_state P n labs comps cloud mx)\<lparr>remap := rm, blob_matrix := bm\<rparr>) \<and>
           pass2_inv P n labs comps cloud (survives cloud comps minp mx) (length comps) rm bm \<and>
           matrix_all (\<lambda>l i. blob_full comps (length comps)) bm"
proof -
  let ?A = "accumulated_state P n labs comps cloud mx"
  let ?I = "\<lambda>k t. \<exists>rm bm. t = ?A\<lparr>remap := rm, blob_matrix := bm\<rparr> \<and>
           pass2_inv P n labs comps cloud (survives cloud comps minp mx) k rm bm \<and>
           matrix_all (\<lambda>l i. blob_full comps k) bm"
  have "\<exists>s'. for_loop (pass2_body minp) [0..<length comps] ?A = Some s' \<and> ?I (length comps) s'"
  proof (rule for_loop_total[where I = ?I])
    have "matrix_all (\<lambda>l i. blob_full comps 0) (replicate P [])"
      by (simp add: matrix_all_def)
    with pass2_inv_0[of P n labs comps cloud "survives cloud comps minp mx"]
    show "?I 0 ?A"
      by (intro exI[of _ "replicate n (-1)"] exI[of _ "replicate P []"])
        (simp add: accumulated_state_self)
  next
    fix k t assume k: "k < length comps" and "?I k t"
    then obtain rm bm where t: "t = ?A\<lparr>remap := rm, blob_matrix := bm\<rparr>"
      and inv: "pass2_inv P n labs comps cloud (survives cloud comps minp mx) k rm bm"
      and full: "matrix_all (\<lambda>l i. blob_full comps k) bm" by blast
    from k rng have c: "-1 \<le> comps ! k" "comps ! k < int n" by auto
    from k len have k': "k < length labs" by simp
    from pass2_body_homogeneous[OF k' k c hom inv full]
    obtain rm' bm' where "pass2_body minp k (?A\<lparr>remap := rm, blob_matrix := bm\<rparr>) =
           Some (?A\<lparr>remap := rm', blob_matrix := bm'\<rparr>)"
      and "pass2_inv P n labs comps cloud (survives cloud comps minp mx) (Suc k) rm' bm'"
      and "matrix_all (\<lambda>l i. blob_full comps (Suc k)) bm'" by blast
    then show "\<exists>t'. pass2_body minp k t = Some t' \<and> ?I (Suc k) t'"
      unfolding t by (intro exI[of _ "?A\<lparr>remap := rm', blob_matrix := bm'\<rparr>"] conjI exI[of _ rm'] exI[of _ bm']) simp_all
  qed
  then show ?thesis by blast
qed

text \<open>On a well-formed frame with one label per component \<open>process\<close> returns.\<close>

lemma process_homogeneous:
  assumes fr: "frame_ok rows cols labs comps cloud" and hom: "label_homogeneous P labs comps"
  obtains s' rm bm where
    "process P rows cols labs comps cloud minp s = Some s'"
    and "blob_matrix s' = number_matrix 0 bm"
    and "pass2_inv P (rows * cols) labs comps cloud
       (survives cloud comps minp (max_cluster_size s)) (length comps) rm bm"
    and "matrix_all (\<lambda>l i. blob_full comps (length comps)) bm"
proof -
  let ?n = "rows * cols" and ?mx = "max_cluster_size s"
  from fr have len: "length labs = length comps" "length comps \<le> length cloud"
    and rng: "\<forall>cc \<in> set comps. -1 \<le> cc \<and> cc < int ?n"
    by (simp_all add: frame_ok_def)
  from pass2_total[OF len(1) rng hom, where cloud = cloud and minp = minp and mx = ?mx]
  obtain rm bm where
    2: "for_loop (pass2_body minp) [0..<length comps] (accumulated_state P ?n labs comps cloud ?mx) =
           Some ((accumulated_state P ?n labs comps cloud ?mx)\<lparr>remap := rm, blob_matrix := bm\<rparr>)"
    and inv: "pass2_inv P ?n labs comps cloud (survives cloud comps minp ?mx) (length comps) rm bm"
    and full: "matrix_all (\<lambda>l i. blob_full comps (length comps)) bm" by blast
  have "process P rows cols labs comps cloud minp s =
      Some ((accumulated_state P ?n labs comps cloud ?mx)
        \<lparr>remap := rm, blob_matrix := number_matrix 0 bm\<rparr>)"
    unfolding process_reset
    by (simp add: pass1_total[OF len(2) rng] clear_invalid_pass1 accumulated_fields 2)
  then show thesis
    by (rule that[OF _ _ inv full]) simp
qed

section \<open>Runs on the example frames\<close>

lemma run_raised:
  "process 2 2 2 [0, 0, 1, 1] [0, 0, 1, 1] raised_cloud 1 (idle_detector 10) = Some raised_result"
  unfolding raised_cloud_def idle_detector_def raised_result_def point_def zero3_def by code_simp

lemma run_mixed:
  "process 2 2 2 [1, 1, 0, 1] [0, 0, 1, 1] raised_cloud 2 (idle_detector 10) = Some mixed_result"
  unfolding raised_cloud_def idle_detector_def mixed_result_def point_def zero3_def by code_simp

lemma run_scenario_A:
  "process 2 2 2 [0, 0, 1, 1] [0, 0, 1, 1] scenario_A_cloud 1 (idle_detector 10) =
     Some scenario_A_result"
  unfolding scenario_A_cloud_def idle_detector_def scenario_A_result_def point_def zero3_def
  by code_simp

lemma run_half_sentinel:
  "process 2 2 2 [0, 0, 1, 1] [0, 0, -1, -1] raised_cloud 1 (idle_detector 10) =
     Some half_sentinel_result"
  unfolding raised_cloud_def idle_detector_def half_sentinel_result_def point_def zero3_def
  by code_simp

text \<open>
  A component that carries two labels can also take line 227 out of the row: pixel 1 has the
  component of pixel 0 and the label 1, and row 1 has no blob at position \<open>remap[0] = 0\<close>.
\<close>

lemma run_out_of_range:
  "process 2 1 2 [0, 1] [0, 0] [point 0 0 1, point 2 0 1] 1 (idle_detector 10) = None"
  unfolding idle_detector_def point_def by code_simp

lemma frame_ok_raised: "frame_ok 2 2 [0, 0, 1, 1] [0, 0, 1, 1] raised_cloud"
  by (simp add: frame_ok_def raised_cloud_def)

lemma homogeneous_raised: "label_homogeneous 2 [0, 0, 1, 1] [0, 0, 1, 1]"
  unfolding label_homogeneous_def by code_simp

section \<open>The blob matrix that \<open>process\<close> returns\<close>

lemma blob_ok_renumber:
  "blob_ok labs comps cloud sv k l (b\<lparr>id' := x, lid := y\<rparr>) = blob_ok labs comps cloud sv k l b"
  by (simp add: blob_ok_def first_pixel_def component_of_def)

lemma blob_full_renumber: "blob_full comps k (b\<lparr>id' := x, lid := y\<rparr>) = blob_full comps k b"
  by (simp add: blob_full_def first_pixel_def component_of_def)

lemma number_matrix_all:
  assumes "matrix_all Q bm"
    and "\<And>l i x y. l < length bm \<Longrightarrow> i < length (bm ! l) \<Longrightarrow> Q l i (bm ! l ! i) \<Longrightarrow>
           Q' l i ((bm ! l ! i)\<lparr>id' := x, lid := y\<rparr>)"
  shows "matrix_all Q' (number_matrix n bm)"
  using assms
  by (simp add: matrix_all_def length_number_matrix length_number_matrix_nth number_matrix_nth_nth)

lemma matrix_all_row:
  assumes "matrix_all (\<lambda>l i. Q l) bm" and "l < length bm" and "b \<in> set (bm ! l)"
  shows "Q l b"
  using assms by (auto simp: matrix_all_def in_set_conv_nth)

lemma heads_sorted_number_matrix: "heads_sorted bm \<Longrightarrow> heads_sorted (number_matrix n bm)"
proof -
  assume hs: "heads_sorted bm"
  have "map first_pixel (number_matrix n bm ! l) = map first_pixel (bm ! l)" if "l < length bm" for l
    using that
    by (intro nth_equalityI) (simp_all add: length_number_matrix_nth number_matrix_fields)
  with hs show ?thesis by (simp add: heads_sorted_def length_number_matrix)
qed

lemma member_count_number_matrix: "member_count (number_matrix n bm) = member_count bm"
proof -
  let ?g = "\<lambda>row. sum_list (map (\<lambda>b. length (indices b)) row)"
  have "map (\<lambda>b. length (indices b)) (number_matrix n bm ! l) = map (\<lambda>b. length (indices b)) (bm ! l)"
    if "l < length bm" for l
    using that
    by (intro nth_equalityI) (simp_all add: length_number_matrix_nth number_matrix_fields)
  then have "map ?g (number_matrix n bm) = map ?g bm"
    by (intro nth_equalityI) (simp_all add: length_number_matrix)
  then show ?thesis by (simp add: member_count_def)
qed

lemma number_matrix_lids:
  "l < length bm \<Longrightarrow> map lid (number_matrix n bm ! l) = [0..<length (bm ! l)]"
  by (intro nth_equalityI) (simp_all add: length_number_matrix_nth number_matrix_fields)

lemma process_blobs:
  assumes "process P rows cols labs comps cloud minp s = Some s'"
  shows "length (blob_matrix s') = P"
    and "matrix_all (\<lambda>l i. blob_ok labs comps cloud
           (survives cloud comps minp (max_cluster_size s)) (length comps) l) (blob_matrix s')"
    and "heads_sorted (blob_matrix s')"
    and "member_count (blob_matrix s') =
           length (filter (\<lambda>j. survives cloud comps minp (max_cluster_size s) (comps ! j))
             [0..<length comps])"
    and "map id' (concat (blob_matrix s')) = [0..<length (concat (blob_matrix s'))]"
    and "\<forall>l<length (blob_matrix s'). map lid (blob_matrix s' ! l) = [0..<length (blob_matrix s' ! l)]"
    and "\<exists>pos. \<forall>k<length comps. survives cloud comps minp (max_cluster_size s) (comps ! k) \<longrightarrow>
           labs ! k < length (blob_matrix s') \<and>
           pos (comps ! k) < length (blob_matrix s' ! (labs ! k)) \<and>
           k \<in> set (indices (blob_matrix s' ! (labs ! k) ! pos (comps ! k))) \<and>
           ((\<forall>j<k. comps ! j \<noteq> comps ! k) \<longrightarrow>
              first_pixel (blob_matrix s' ! (labs ! k) ! pos (comps ! k)) = k)"
proof -
  let ?sv = "survives cloud comps minp (max_cluster_size s)"
  let ?n = "length comps"
  from assms obtain rm bm where
    inv: "pass2_inv P (rows * cols) labs comps cloud ?sv ?n rm bm"
    and bm': "blob_matrix s' = number_matrix 0 bm"
    and rng: "\<forall>cc \<in> set comps. -1 \<le> cc \<and> cc < int (rows * cols)"
    by (rule process_result)
  from inv have len: "length rm = rows * cols" "length bm = P"
    and ok: "matrix_all (\<lambda>l i. blob_ok labs comps cloud ?sv ?n l) bm"
    and hs: "heads_sorted bm" and fr: "remap_fresh comps ?sv ?n rm"
    and pt: "remap_points labs comps ?n rm bm"
    and pl: "pixels_placed labs comps ?sv ?n rm bm"
    and mc: "member_count bm = length (filter (\<lambda>j. ?sv (comps ! j)) [0..<?n])"
    by (simp_all add: pass2_inv_def)
  show "length (blob_matrix s') = P" by (simp add: bm' length_number_matrix len)
  show "matrix_all (\<lambda>l i. blob_ok labs comps cloud ?sv ?n l) (blob_matrix s')"
    unfolding bm' using ok by (rule number_matrix_all) (simp add: blob_ok_renumber)
  show "heads_sorted (blob_matrix s')"
    unfolding bm' using hs by (rule heads_sorted_number_matrix)
  show "member_count (blob_matrix s') = length (filter (\<lambda>j. ?sv (comps ! j)) [0..<?n])"
    by (simp add: bm' member_count_number_matrix mc)
  show "map id' (concat (blob_matrix s')) = [0..<length (concat (blob_matrix s'))]"
  proof -
    have "length (map id' (concat (number_matrix 0 bm))) = length [0..<length (concat bm)]"
      using number_matrix_ids[of 0 bm] by simp
    then have "length (concat (number_matrix 0 bm)) = length (concat bm)" by simp
    then show ?thesis using number_matrix_ids[of 0 bm] by (simp add: bm')
  qed
  show "\<forall>l<length (blob_matrix s'). map lid (blob_matrix s' ! l) = [0..<length (blob_matrix s' ! l)]"
    by (simp add: bm' length_number_matrix number_matrix_lids length_number_matrix_nth)
  show "\<exists>pos. \<forall>k<?n. ?sv (comps ! k) \<longrightarrow>
           labs ! k < length (blob_matrix s') \<and>
           pos (comps ! k) < length (blob_matrix s' ! (labs ! k)) \<and>
           k \<in> set (indices (blob_matrix s' ! (labs ! k) ! pos (comps ! k))) \<and>
           ((\<forall>j<k. comps ! j \<noteq> comps ! k) \<longrightarrow>
              first_pixel (blob_matrix s' ! (labs ! k) ! pos (comps ! k)) = k)"
  proof (intro exI[of _ "\<lambda>c. nat (rm ! nat c)"] allI impI)
    fix k assume k: "k < ?n" and svk: "?sv (comps ! k)"
    let ?c = "comps ! k" and ?l = "labs ! k"
    let ?i = "nat (rm ! nat ?c)"
    from pl k svk have p: "0 \<le> ?c" "?l < length bm" "?i < length (bm ! ?l)"
      "k \<in> set (indices (bm ! ?l ! ?i))"
      unfolding pixels_placed_def by auto
    have first: "first_pixel (bm ! ?l ! ?i) = k" if new: "\<forall>j<k. comps ! j \<noteq> ?c"
    proof -
      from rng k have cn: "?c < int (length rm)" by (simp add: len)
      from fr p(1) cn svk k have "rm ! nat ?c \<noteq> -1"
        unfolding remap_fresh_def by blast
      with pt p(1) cn obtain h where h: "h < ?n" "comps ! h = ?c" "labs ! h < length bm"
        "?i < length (bm ! (labs ! h))" "first_pixel (bm ! (labs ! h) ! ?i) = h"
        unfolding remap_points_def by blast
      from ok h(3,4) have "blob_ok labs comps cloud ?sv ?n (labs ! h) (bm ! (labs ! h) ! ?i)"
        by (simp add: matrix_all_def)
      then have "\<forall>j<h. comps ! j \<noteq> comps ! h"
        using h(5) by (simp add: blob_ok_def component_of_def)
      with h(2) new have "h = k" by (intro first_pixel_unique[of comps]) auto
      with h(5) show ?thesis by simp
    qed
    from p first show "?l < length (blob_matrix s') \<and>
           ?i < length (blob_matrix s' ! ?l) \<and>
           k \<in> set (indices (blob_matrix s' ! ?l ! ?i)) \<and>
           ((\<forall>j<k. comps ! j \<noteq> ?c) \<longrightarrow> first_pixel (blob_matrix s' ! ?l ! ?i) = k)"
      by (simp add: bm' length_number_matrix length_number_matrix_nth number_matrix_fields)
  qed
qed

section \<open>Pass 2, one iteration, as equations\<close>

lemma pass2_body_skip:
  assumes "k < length labs" "k < length comps" "-1 \<le> comps ! k" "comps ! k < int n"
    and nsv: "\<not> survives cloud comps minp mx (comps ! k)"
  shows "pass2_body minp k ((accumulated_state P n labs comps cloud mx)
             \<lparr>remap := rm, blob_matrix := bm\<rparr>) =
         Some ((accumulated_state P n labs comps cloud mx)\<lparr>remap := rm, blob_matrix := bm\<rparr>)"
proof -
  have "\<exists>t'. pass2_body minp k ((accumulated_state P n labs comps cloud mx)
             \<lparr>remap := rm, blob_matrix := bm\<rparr>) = Some t'"
    using assms(1-4) by (rule pass2_body_defined) (use nsv in simp)
  then obtain t' where t': "pass2_body minp k ((accumulated_state P n labs comps cloud mx)
             \<lparr>remap := rm, blob_matrix := bm\<rparr>) = Some t'" by blast
  then show ?thesis
  proof (cases rule: pass2_body_cases)
    case skip
    from t' show ?thesis unfolding skip(6) .
  next
    case create
    from nsv create(5) show ?thesis by (rule notE)
  next
    case append
    from nsv append(5) show ?thesis by (rule notE)
  qed
qed

lemma pass2_body_create:
  assumes "k < length labs" "k < length comps" "-1 \<le> comps ! k" "comps ! k < int n"
    and sv: "survives cloud comps minp mx (comps ! k)"
    and acc: "comps ! k < int (length rm)" "labs ! k < length bm"
    and m1: "rm ! nat (comps ! k) = -1"
  shows "pass2_body minp k ((accumulated_state P n labs comps cloud mx)
             \<lparr>remap := rm, blob_matrix := bm\<rparr>) =
         Some ((accumulated_state P n labs comps cloud mx)
           \<lparr>remap := rm[nat (comps ! k) := int (length (bm ! (labs ! k)))],
            blob_matrix := bm[labs ! k := bm ! (labs ! k) @ [created_blob labs comps cloud k]]\<rparr>)"
proof -
  have "\<exists>t'. pass2_body minp k ((accumulated_state P n labs comps cloud mx)
             \<lparr>remap := rm, blob_matrix := bm\<rparr>) = Some t'"
    using assms(1-4) by (rule pass2_body_defined) (use acc m1 in simp)
  then obtain t' where t': "pass2_body minp k ((accumulated_state P n labs comps cloud mx)
             \<lparr>remap := rm, blob_matrix := bm\<rparr>) = Some t'" by blast
  then show ?thesis
  proof (cases rule: pass2_body_cases)
    case skip
    from skip(5) sv show ?thesis by (rule notE)
  next
    case create
    from t' show ?thesis unfolding create(9) .
  next
    case append
    from append(8) m1 show ?thesis by (rule notE)
  qed
qed

lemma pass2_body_append:
  assumes "k < length labs" "k < length comps" "-1 \<le> comps ! k" "comps ! k < int n"
    and sv: "survives cloud comps minp mx (comps ! k)"
    and acc: "comps ! k < int (length rm)" "labs ! k < length bm"
    and m1: "rm ! nat (comps ! k) \<noteq> -1" "0 \<le> rm ! nat (comps ! k)"
      "nat (rm ! nat (comps ! k)) < length (bm ! (labs ! k))"
  shows "pass2_body minp k ((accumulated_state P n labs comps cloud mx)
             \<lparr>remap := rm, blob_matrix := bm\<rparr>) =
         Some ((accumulated_state P n labs comps cloud mx)
           \<lparr>remap := rm,
            blob_matrix := bm[labs ! k := (bm ! (labs ! k))[nat (rm ! nat (comps ! k)) :=
              (bm ! (labs ! k) ! nat (rm ! nat (comps ! k)))
                \<lparr>indices := indices (bm ! (labs ! k) ! nat (rm ! nat (comps ! k))) @ [k]\<rparr>]]\<rparr>)"
proof -
  have "\<exists>t'. pass2_body minp k ((accumulated_state P n labs comps cloud mx)
             \<lparr>remap := rm, blob_matrix := bm\<rparr>) = Some t'"
    using assms(1-4) by (rule pass2_body_defined) (use acc m1 in simp)
  then obtain t' where t': "pass2_body minp k ((accumulated_state P n labs comps cloud mx)
             \<lparr>remap := rm, blob_matrix := bm\<rparr>) = Some t'" by blast
  then show ?thesis
  proof (cases rule: pass2_body_cases)
    case skip
    from skip(5) sv show ?thesis by (rule notE)
  next
    case create
    from m1(1) create(8) show ?thesis by (rule notE)
  next
    case append
    from t' show ?thesis unfolding append(11) .
  qed
qed

lemma number_matrix_empty: "number_matrix i (replicate P []) = replicate P []"
  by (induction P arbitrary: i) simp_all

lemma number_matrix_single:
  assumes "l < P"
  shows "number_matrix 0 ((replicate P [])[l := [b]]) = (replicate P [])[l := [b\<lparr>id' := 0, lid := 0\<rparr>]]"
proof -
  have "(replicate P [])[l := [b]] = replicate l [] @ [b] # replicate (P - Suc l) []"
    using assms by (simp add: upd_conv_take_nth_drop)
  moreover have "(replicate P [])[l := [b\<lparr>id' := 0, lid := 0\<rparr>]] =
      replicate l [] @ [b\<lparr>id' := 0, lid := 0\<rparr>] # replicate (P - Suc l) []"
    using assms by (simp add: upd_conv_take_nth_drop)
  moreover have "number_matrix i (replicate l [] @ [b] # replicate m []) =
      replicate l [] @ [b\<lparr>id' := i, lid := 0\<rparr>] # replicate m []" for i m
    by (induction l arbitrary: i) (simp_all add: number_matrix_empty)
  ultimately show ?thesis by simp
qed

section \<open>The claims\<close>

subsection \<open>Construction\<close>

text \<open>A tree file that \<open>loadTree\<close> rejects makes the constructor throw in either build; line 61
  has run by then, so \<open>impl_\<close> is acquired at the throw.\<close>

lemma unreadable_tree_file_after_impl:
  "loadTree f = None \<Longrightarrow>
     RDFBodyPartsDetector NDEBUG NUM_PARTS loadTree [f] rows cols =
       threw [MultiTreeLiveProc rows cols]"
  by (simp add: RDFBodyPartsDetector_def)

text \<open>
  Claim C9 has the construction with an empty list of tree files fail with a load error,
  before any resource is acquired. The constructor does not do that in either build. With
  assertions compiled in, line 59 aborts the process, with nothing acquired, and no error
  reaches the caller. With \<open>NDEBUG\<close> line 59 is gone: line 61 acquires \<open>impl_\<close>, the loop of
  line 63 runs zero times, lines 84 and 86 acquire the colour map and the buffers, and the
  detector is constructed with no \<open>CUDATree\<close> among its resources. In no build does the
  constructor throw on the empty list.
\<close>

theorem empty_tree_files_not_rejected:
  "RDFBodyPartsDetector False NUM_PARTS loadTree [] rows cols = aborted [] \<and>
   RDFBodyPartsDetector True NUM_PARTS loadTree [] rows cols =
     constructed
       \<lparr>max_cluster_size = MAX_CLUST_SIZE,
        lmap_host = replicate (rows * cols) 0,
        dst_labels = replicate (rows * cols) 0,
        region_sizes = replicate (rows * cols + 1) 0,
        remap = replicate (rows * cols) 0,
        means_storage = replicate (rows * cols + 1) zero3,
        blob_matrix = replicate NUM_PARTS []\<rparr>
       [MultiTreeLiveProc rows cols, color_map, buffers rows cols] \<and>
   (\<forall>NDEBUG acquired.
      RDFBodyPartsDetector NDEBUG NUM_PARTS loadTree [] rows cols \<noteq> threw acquired)"
  by (simp add: RDFBodyPartsDetector_def allocate_buffers_def resize_def)

subsection \<open>Determinism\<close>

text \<open>
  Claim C7. \<open>process\<close> is a function of the label image, the component image, the cloud,
  \<open>min_pts_per_cluster\<close> and the detector's \<open>max_cluster_size\<close>: whatever the buffers of the
  detector hold from earlier frames, two detectors with the same \<open>max_cluster_size\<close> return
  the same state, the blob matrix with its members, means, \<open>id\<close> and \<open>lid\<close> included.
\<close>

theorem process_deterministic:
  assumes "max_cluster_size s1 = max_cluster_size s2"
  shows "process NUM_PARTS rows cols labs comps cloud min_pts s1 =
         process NUM_PARTS rows cols labs comps cloud min_pts s2"
  using assms by (simp add: process_reset)

theorem process_deterministic_witness:
  "max_cluster_size (idle_detector 10) = max_cluster_size (used_detector 10) \<and>
   idle_detector 10 \<noteq> used_detector 10 \<and>
   process 2 2 2 [0, 0, 1, 1] [0, 0, 1, 1] raised_cloud 1 (idle_detector 10) =
   process 2 2 2 [0, 0, 1, 1] [0, 0, 1, 1] raised_cloud 1 (used_detector 10)"
proof -
  have h: "max_cluster_size (idle_detector 10) = max_cluster_size (used_detector 10)"
    by (simp add: idle_detector_def used_detector_def)
  have "idle_detector 10 \<noteq> used_detector 10"
    by (simp add: idle_detector_def used_detector_def)
  with h process_deterministic[OF h] show ?thesis by simp
qed

text \<open>\<open>process\<close> leaves \<open>max_cluster_size\<close> as it is, so a second run on the same frame returns
  the state of the first.\<close>

lemma process_twice:
  assumes "process NUM_PARTS rows cols labs comps cloud min_pts s = Some s'"
  shows "process NUM_PARTS rows cols labs comps cloud min_pts s' = Some s'"
proof -
  from assms obtain s1 s2 s3 where
    1: "for_loop (pass1_body cloud) [0..<length comps]
          (reset_state NUM_PARTS (rows * cols) labs comps (max_cluster_size s)) = Some s1"
    and 2: "clear_invalid s1 = Some s2"
    and 3: "for_loop (pass2_body min_pts) [0..<length (dst_labels s2)] s2 = Some s3"
    and 4: "s' = s3\<lparr>blob_matrix := number_matrix 0 (blob_matrix s3)\<rparr>"
    unfolding process_reset by (auto split: bind_splits)
  from 2 pass1_result(1)[OF 1]
  have s2: "s2 = accumulated_state NUM_PARTS (rows * cols) labs comps cloud (max_cluster_size s)"
    by (simp add: clear_invalid_pass1)
  from 3 have "for_loop (pass2_body min_pts) [0..<length comps]
      (accumulated_state NUM_PARTS (rows * cols) labs comps cloud (max_cluster_size s)) = Some s3"
    by (simp add: s2 accumulated_fields)
  from pass2_result[OF this] 4 have "max_cluster_size s' = max_cluster_size s"
    by (auto simp: accumulated_fields)
  then have "process NUM_PARTS rows cols labs comps cloud min_pts s' =
      process NUM_PARTS rows cols labs comps cloud min_pts s"
    by (simp add: process_reset)
  with assms show ?thesis by simp
qed

subsection \<open>The sentinel\<close>

text \<open>
  Claim C2. Whenever \<open>process\<close> returns, every blob of the matrix has a member, the
  component of its first member is not the sentinel \<open>-1\<close>, and no member of any blob is a
  pixel whose component id is \<open>-1\<close>.
\<close>

theorem sentinel_never_in_blob:
  assumes "process NUM_PARTS rows cols labs comps cloud min_pts s = Some s'"
  shows "\<forall>row \<in> set (blob_matrix s'). \<forall>b \<in> set row.
           indices b \<noteq> [] \<and> component_of comps b \<noteq> -1 \<and>
           (\<forall>k \<in> set (indices b). k < length comps \<and> comps ! k \<noteq> -1)"
proof (intro ballI)
  fix row b assume "row \<in> set (blob_matrix s')" and "b \<in> set row"
  then obtain l where l: "l < length (blob_matrix s')" and b: "b \<in> set (blob_matrix s' ! l)"
    by (auto simp: in_set_conv_nth)
  let ?sv = "survives cloud comps min_pts (max_cluster_size s)"
  from process_blobs(2)[OF assms] l b
  have ok: "blob_ok labs comps cloud ?sv (length comps) l b" by (rule matrix_all_row)
  from blob_ok_first_pixel(3)[OF ok] have "component_of comps b \<noteq> -1"
    by (auto simp: survives_def)
  moreover from ok have "indices b \<noteq> []"
    and "\<forall>k \<in> set (indices b). k < length comps \<and> comps ! k \<noteq> -1"
    by (auto simp: blob_ok_def survives_def)
  ultimately show "indices b \<noteq> [] \<and> component_of comps b \<noteq> -1 \<and>
           (\<forall>k \<in> set (indices b). k < length comps \<and> comps ! k \<noteq> -1)" by simp
qed

theorem sentinel_never_in_blob_witness:
  "\<exists>s'. process 2 2 2 [0, 0, 1, 1] [0, 0, -1, -1] raised_cloud 1 (idle_detector 10) = Some s' \<and>
     map (map indices) (blob_matrix s') = [[[0, 1]], []] \<and>
     (\<forall>row \<in> set (blob_matrix s'). \<forall>b \<in> set row.
           indices b \<noteq> [] \<and> component_of [0, 0, -1, -1] b \<noteq> -1 \<and>
           (\<forall>k \<in> set (indices b). k < length [0, 0, -1, -1 :: int] \<and> [0, 0, -1, -1] ! k \<noteq> (-1 :: int)))"
proof (rule exI[of _ half_sentinel_result], intro conjI)
  show "process 2 2 2 [0, 0, 1, 1] [0, 0, -1, -1] raised_cloud 1 (idle_detector 10) =
      Some half_sentinel_result" by (rule run_half_sentinel)
  show "map (map indices) (blob_matrix half_sentinel_result) = [[[0, 1]], []]"
    by (simp add: half_sentinel_result_def)
  show "\<forall>row \<in> set (blob_matrix half_sentinel_result). \<forall>b \<in> set row.
           indices b \<noteq> [] \<and> component_of [0, 0, -1, -1] b \<noteq> -1 \<and>
           (\<forall>k \<in> set (indices b). k < length [0, 0, -1, -1 :: int] \<and> [0, 0, -1, -1] ! k \<noteq> (-1 :: int))"
    by (rule sentinel_never_in_blob[OF run_half_sentinel])
qed

subsection \<open>The number of members\<close>

text \<open>
  Claim C5, as stated, counts every pixel of a component within the size bounds. The
  test of line 212 also asks for a \<open>z\<close> sum other than zero, so in scenario A the two
  pixels of component 0 are counted by the claim and are members of no blob.
\<close>

theorem member_count_counterexample:
  "\<exists>s'. process 2 2 2 [0, 0, 1, 1] [0, 0, 1, 1] scenario_A_cloud 1 (idle_detector 10) = Some s' \<and>
     member_count (blob_matrix s') = 2 \<and>
     length (filter (\<lambda>k. within_bounds [0, 0, 1, 1] 1 10 ([0, 0, 1, 1] ! k)) [0..<4]) = 4"
proof (rule exI[of _ scenario_A_result], intro conjI)
  show "process 2 2 2 [0, 0, 1, 1] [0, 0, 1, 1] scenario_A_cloud 1 (idle_detector 10) =
      Some scenario_A_result" by (rule run_scenario_A)
  show "member_count (blob_matrix scenario_A_result) = 2"
    by (simp add: scenario_A_result_def member_count_def)
  show "length (filter (\<lambda>k. within_bounds [0, 0, 1, 1] 1 10 ([0, 0, 1, 1] ! k)) [0..<4]) = 4"
    unfolding within_bounds_def component_count_def count_upto_def pixels_upto_def by code_simp
qed

text \<open>
  Claim C5, amended. Whenever \<open>process\<close> returns, the number of members of all blobs is the
  number of pixels whose component passes the test of line 212: it is not the sentinel,
  its accumulated \<open>z\<close> sum is not zero, and its count is within the two bounds.
\<close>

theorem member_count_surviving_pixels:
  assumes "process NUM_PARTS rows cols labs comps cloud min_pts s = Some s'"
  shows "member_count (blob_matrix s') =
         length (filter (\<lambda>k. survives cloud comps min_pts (max_cluster_size s) (comps ! k))
                   [0..<length comps])"
  using assms by (rule process_blobs(4))

theorem member_count_surviving_pixels_witness:
  "\<exists>s'. process 2 2 2 [0, 0, 1, 1] [0, 0, 1, 1] raised_cloud 1 (idle_detector 10) = Some s' \<and>
     member_count (blob_matrix s') = 4 \<and>
     member_count (blob_matrix s') =
       length (filter (\<lambda>k. survives raised_cloud [0, 0, 1, 1] 1
                 (max_cluster_size (idle_detector 10)) ([0, 0, 1, 1] ! k)) [0..<length [0, 0, 1, 1 :: int]])"
proof (rule exI[of _ raised_result], intro conjI)
  show "process 2 2 2 [0, 0, 1, 1] [0, 0, 1, 1] raised_cloud 1 (idle_detector 10) =
      Some raised_result" by (rule run_raised)
  show "member_count (blob_matrix raised_result) = 4"
    by (simp add: raised_result_def member_count_def)
  show "member_count (blob_matrix raised_result) =
       length (filter (\<lambda>k. survives raised_cloud [0, 0, 1, 1] 1
                 (max_cluster_size (idle_detector 10)) ([0, 0, 1, 1] ! k)) [0..<length [0, 0, 1, 1 :: int]])"
    by (rule member_count_surviving_pixels[OF run_raised])
qed

subsection \<open>Identifiers and order\<close>

lemma distinct_map_concat:
  assumes inj: "\<And>l1 i1 l2 i2. l1 < length bm \<Longrightarrow> i1 < length (bm ! l1) \<Longrightarrow>
      l2 < length bm \<Longrightarrow> i2 < length (bm ! l2) \<Longrightarrow> f (bm ! l1 ! i1) = f (bm ! l2 ! i2) \<Longrightarrow>
      l1 = l2 \<and> i1 = i2"
  shows "distinct (map f (concat bm))"
proof -
  have "m \<le> length bm \<Longrightarrow> distinct (map f (concat (take m bm)))" for m
  proof (induction m)
    case 0
    then show ?case by simp
  next
    case (Suc m)
    then have m: "m < length bm" by simp
    have row: "distinct (map f (bm ! m))"
      unfolding distinct_conv_nth
    proof (intro allI impI)
      fix i j assume "i < length (map f (bm ! m))" "j < length (map f (bm ! m))" "i \<noteq> j"
      with inj[OF m _ m, of i j] show "map f (bm ! m) ! i \<noteq> map f (bm ! m) ! j" by auto
    qed
    have disj: "set (map f (concat (take m bm))) \<inter> set (map f (bm ! m)) = {}"
    proof (rule ccontr)
      assume "set (map f (concat (take m bm))) \<inter> set (map f (bm ! m)) \<noteq> {}"
      then obtain x where "x \<in> set (map f (concat (take m bm)))" "x \<in> set (map f (bm ! m))"
        by blast
      then obtain r b where r: "r \<in> set (take m bm)" "b \<in> set r" "x = f b"
        and "x \<in> f ` set (bm ! m)" by auto
      then obtain i2 where i2: "i2 < length (bm ! m)" "x = f (bm ! m ! i2)"
        by (auto simp: in_set_conv_nth)
      from r(1) m obtain l where l: "l < m" "r = bm ! l"
        by (auto simp: in_set_conv_nth)
      from r(2) l obtain i1 where i1: "i1 < length (bm ! l)" "b = bm ! l ! i1"
        by (auto simp: in_set_conv_nth)
      from l m have "l < length bm" by simp
      from inj[OF this i1(1) m i2(1)] r(3) i1(2) i2(2) have "l = m" by simp
      with l show False by simp
    qed
    from Suc.IH m row disj show ?case
      by (simp add: take_Suc_conv_app_nth)
  qed
  from this[of "length bm"] show ?thesis by simp
qed

text \<open>
  Claim C3. Whenever \<open>process\<close> returns: read row after row, the \<open>id\<close> fields are
  \<open>0, 1, \<dots>, total - 1\<close>; in every row the \<open>lid\<close> fields are the positions, and the blobs
  stand in the order of their first members; the first member of a blob of row \<open>l\<close> is the
  first pixel in raster order of its component, carries the label \<open>l\<close>, and its component
  passes the test of line 212; and the components of the blobs are pairwise distinct and
  are exactly the components of the frame that pass the test.
\<close>

theorem ids_and_creation_order:
  assumes "process NUM_PARTS rows cols labs comps cloud min_pts s = Some s'"
  shows "map id' (concat (blob_matrix s')) = [0..<length (concat (blob_matrix s'))] \<and>
         (\<forall>l < length (blob_matrix s').
            map lid (blob_matrix s' ! l) = [0..<length (blob_matrix s' ! l)] \<and>
            sorted_wrt (<) (map first_pixel (blob_matrix s' ! l)) \<and>
            (\<forall>b \<in> set (blob_matrix s' ! l).
               first_pixel b < length comps \<and> labs ! first_pixel b = l \<and>
               (\<forall>j < first_pixel b. comps ! j \<noteq> component_of comps b) \<and>
               survives cloud comps min_pts (max_cluster_size s) (component_of comps b))) \<and>
         distinct (map (component_of comps) (concat (blob_matrix s'))) \<and>
         set (map (component_of comps) (concat (blob_matrix s'))) =
           {c \<in> set comps. survives cloud comps min_pts (max_cluster_size s) c}"
proof -
  let ?sv = "survives cloud comps min_pts (max_cluster_size s)"
  let ?bm = "blob_matrix s'"
  note pb = process_blobs[OF assms]
  have okb: "blob_ok labs comps cloud ?sv (length comps) l b"
    if "l < length ?bm" "b \<in> set (?bm ! l)" for l b
    using pb(2) that by (rule matrix_all_row)
  have rows: "map lid (?bm ! l) = [0..<length (?bm ! l)] \<and>
            sorted_wrt (<) (map first_pixel (?bm ! l)) \<and>
            (\<forall>b \<in> set (?bm ! l).
               first_pixel b < length comps \<and> labs ! first_pixel b = l \<and>
               (\<forall>j < first_pixel b. comps ! j \<noteq> component_of comps b) \<and>
               ?sv (component_of comps b))" if l: "l < length ?bm" for l
  proof (intro conjI ballI)
    show "map lid (?bm ! l) = [0..<length (?bm ! l)]" using pb(6) l by simp
    show "sorted_wrt (<) (map first_pixel (?bm ! l))" using pb(3) l by (simp add: heads_sorted_def)
  next
    fix b assume "b \<in> set (?bm ! l)"
    with l have ok: "blob_ok labs comps cloud ?sv (length comps) l b" by (rule okb)
    show "first_pixel b < length comps" using ok by (rule blob_ok_first_pixel)
    show "labs ! first_pixel b = l" using ok by (rule blob_ok_first_pixel)
    show "?sv (component_of comps b)" using ok by (rule blob_ok_first_pixel)
    show "\<forall>j < first_pixel b. comps ! j \<noteq> component_of comps b"
      using ok by (simp add: blob_ok_def)
  qed
  have dist: "distinct (map (component_of comps) (concat ?bm))"
    by (rule distinct_map_concat) (rule blob_of_component_unique[OF pb(2,3)])
  have "set (map (component_of comps) (concat ?bm)) = {c \<in> set comps. ?sv c}"
  proof (intro equalityI subsetI)
    fix c assume "c \<in> set (map (component_of comps) (concat ?bm))"
    then obtain r b where "r \<in> set ?bm" "b \<in> set r" and c: "c = component_of comps b" by auto
    then obtain l where "l < length ?bm" "b \<in> set (?bm ! l)" by (auto simp: in_set_conv_nth)
    then have ok: "blob_ok labs comps cloud ?sv (length comps) l b" by (rule okb)
    from blob_ok_first_pixel(2,3)[OF ok] c show "c \<in> {c \<in> set comps. ?sv c}"
      by (simp add: component_of_def)
  next
    fix c assume "c \<in> {c \<in> set comps. ?sv c}"
    then have "\<exists>k. k < length comps \<and> comps ! k = c" and svc: "?sv c"
      by (auto simp: in_set_conv_nth)
    then obtain k where k: "k < length comps" "comps ! k = c" "\<forall>j<k. \<not> (j < length comps \<and> comps ! j = c)"
      using exists_least_iff[of "\<lambda>k. k < length comps \<and> comps ! k = c"] by blast
    then have first: "\<forall>j<k. comps ! j \<noteq> comps ! k" by auto
    from pb(7) obtain pos where pos: "\<forall>k<length comps. ?sv (comps ! k) \<longrightarrow>
           labs ! k < length ?bm \<and> pos (comps ! k) < length (?bm ! (labs ! k)) \<and>
           k \<in> set (indices (?bm ! (labs ! k) ! pos (comps ! k))) \<and>
           ((\<forall>j<k. comps ! j \<noteq> comps ! k) \<longrightarrow>
              first_pixel (?bm ! (labs ! k) ! pos (comps ! k)) = k)" by blast
    from pos k(1,2) svc first have p: "labs ! k < length ?bm" "pos c < length (?bm ! (labs ! k))"
      "first_pixel (?bm ! (labs ! k) ! pos c) = k" by auto
    from p(1,2) have "?bm ! (labs ! k) \<in> set ?bm"
      and "?bm ! (labs ! k) ! pos c \<in> set (?bm ! (labs ! k))" by simp_all
    then have "?bm ! (labs ! k) ! pos c \<in> set (concat ?bm)" by auto
    moreover have "component_of comps (?bm ! (labs ! k) ! pos c) = c"
      using p(3) k(2) by (simp add: component_of_def)
    ultimately show "c \<in> set (map (component_of comps) (concat ?bm))" by force
  qed
  with pb(5) rows dist show ?thesis by blast
qed

theorem ids_and_creation_order_witness:
  "\<exists>s'. process 2 2 2 [0, 0, 1, 1] [0, 0, 1, 1] raised_cloud 1 (idle_detector 10) = Some s' \<and>
     map (map id') (blob_matrix s') = [[0], [1]] \<and>
     map id' (concat (blob_matrix s')) = [0..<length (concat (blob_matrix s'))] \<and>
     (\<forall>l < length (blob_matrix s').
        map lid (blob_matrix s' ! l) = [0..<length (blob_matrix s' ! l)] \<and>
        sorted_wrt (<) (map first_pixel (blob_matrix s' ! l)) \<and>
        (\<forall>b \<in> set (blob_matrix s' ! l).
           first_pixel b < length [0, 0, 1, 1 :: int] \<and> [0, 0, 1, 1] ! first_pixel b = l \<and>
           (\<forall>j < first_pixel b. [0, 0, 1, 1] ! j \<noteq> component_of [0, 0, 1, 1] b) \<and>
           survives raised_cloud [0, 0, 1, 1] 1 (max_cluster_size (idle_detector 10))
             (component_of [0, 0, 1, 1] b))) \<and>
     distinct (map (component_of [0, 0, 1, 1]) (concat (blob_matrix s'))) \<and>
     set (map (component_of [0, 0, 1, 1]) (concat (blob_matrix s'))) =
       {c \<in> set [0, 0, 1, 1].
          survives raised_cloud [0, 0, 1, 1] 1 (max_cluster_size (idle_detector 10)) c}"
proof (rule exI[of _ raised_result], intro conjI)
  show "process 2 2 2 [0, 0, 1, 1] [0, 0, 1, 1] raised_cloud 1 (idle_detector 10) =
      Some raised_result" by (rule run_raised)
  show "map (map id') (blob_matrix raised_result) = [[0], [1]]"
    by (simp add: raised_result_def)
qed (use ids_and_creation_order[OF run_raised] in blast)+

subsection \<open>Where a pixel goes\<close>

text \<open>
  Claim C10, as stated, has every later pixel of a component appended to the blob that was
  created for the component, whatever the pixel's label. Line 227 indexes the matrix with
  the label of the pixel itself: in the frame below component 1 starts at pixel 2 with
  label 0 and goes on at pixel 3 with label 1; its blob, in row 0, keeps the one member 2,
  and pixel 3 is a member of the blob of component 0, in row 1.
\<close>

theorem later_pixel_counterexample:
  "\<exists>s'. process 2 2 2 [1, 1, 0, 1] [0, 0, 1, 1] raised_cloud 2 (idle_detector 10) = Some s' \<and>
     [0, 0, 1, 1] ! 3 = ([0, 0, 1, 1] ! 2 :: int) \<and>
     survives raised_cloud [0, 0, 1, 1] 2 10 ([0, 0, 1, 1] ! 3) \<and>
     map (map indices) (blob_matrix s') = [[[2]], [[0, 1, 3]]] \<and>
     map (map (component_of [0, 0, 1, 1])) (blob_matrix s') = [[1], [0]]"
proof (rule exI[of _ mixed_result], intro conjI)
  show "process 2 2 2 [1, 1, 0, 1] [0, 0, 1, 1] raised_cloud 2 (idle_detector 10) =
      Some mixed_result" by (rule run_mixed)
  show "survives raised_cloud [0, 0, 1, 1] 2 10 ([0, 0, 1, 1] ! 3)"
    unfolding survives_def component_sum_def component_count_def sum_upto_def count_upto_def
      pixels_upto_def raised_cloud_def point_def add3_def zero3_def
    by code_simp
  show "[0, 0, 1, 1] ! 3 = ([0, 0, 1, 1] ! 2 :: int)" by simp
  show "map (map indices) (blob_matrix mixed_result) = [[[2]], [[0, 1, 3]]]"
    by (simp add: mixed_result_def)
  show "map (map (component_of [0, 0, 1, 1])) (blob_matrix mixed_result) = [[1], [0]]"
    by (simp add: mixed_result_def component_of_def first_pixel_def)
qed

text \<open>
  Claim C10, amended. Whenever \<open>process\<close> returns, the members of a blob of row \<open>l\<close> carry
  the label \<open>l\<close>, which is the blob's \<open>label\<close>. Every component that passes the test has
  one position \<open>pos\<close>: a pixel of the component is a member of the blob at position \<open>pos\<close>
  of the row of the pixel's own label, and at the first pixel of the component that blob
  starts with this pixel, so the blob created for the component stands in the row of the
  label of its first pixel. No two blobs start in the same component.
\<close>

theorem pixel_placement:
  assumes "process NUM_PARTS rows cols labs comps cloud min_pts s = Some s'"
  shows "(\<forall>l < length (blob_matrix s'). \<forall>b \<in> set (blob_matrix s' ! l).
            label b = l \<and> (\<forall>k \<in> set (indices b). labs ! k = l)) \<and>
         (\<exists>pos. \<forall>k < length comps.
            survives cloud comps min_pts (max_cluster_size s) (comps ! k) \<longrightarrow>
              labs ! k < length (blob_matrix s') \<and>
              pos (comps ! k) < length (blob_matrix s' ! (labs ! k)) \<and>
              k \<in> set (indices (blob_matrix s' ! (labs ! k) ! pos (comps ! k))) \<and>
              ((\<forall>j<k. comps ! j \<noteq> comps ! k) \<longrightarrow>
                 first_pixel (blob_matrix s' ! (labs ! k) ! pos (comps ! k)) = k)) \<and>
         (\<forall>l1 i1 l2 i2.
            l1 < length (blob_matrix s') \<and> i1 < length (blob_matrix s' ! l1) \<and>
            l2 < length (blob_matrix s') \<and> i2 < length (blob_matrix s' ! l2) \<and>
            component_of comps (blob_matrix s' ! l1 ! i1) =
              component_of comps (blob_matrix s' ! l2 ! i2) \<longrightarrow>
            l1 = l2 \<and> i1 = i2)"
proof (intro conjI)
  note pb = process_blobs[OF assms]
  show "\<forall>l < length (blob_matrix s'). \<forall>b \<in> set (blob_matrix s' ! l).
            label b = l \<and> (\<forall>k \<in> set (indices b). labs ! k = l)"
  proof (intro allI impI ballI)
    fix l b assume "l < length (blob_matrix s')" "b \<in> set (blob_matrix s' ! l)"
    with pb(2) have "blob_ok labs comps cloud (survives cloud comps min_pts (max_cluster_size s))
        (length comps) l b" by (rule matrix_all_row)
    then show "label b = l \<and> (\<forall>k \<in> set (indices b). labs ! k = l)"
      by (simp add: blob_ok_def)
  qed
  show "\<exists>pos. \<forall>k < length comps.
            survives cloud comps min_pts (max_cluster_size s) (comps ! k) \<longrightarrow>
              labs ! k < length (blob_matrix s') \<and>
              pos (comps ! k) < length (blob_matrix s' ! (labs ! k)) \<and>
              k \<in> set (indices (blob_matrix s' ! (labs ! k) ! pos (comps ! k))) \<and>
              ((\<forall>j<k. comps ! j \<noteq> comps ! k) \<longrightarrow>
                 first_pixel (blob_matrix s' ! (labs ! k) ! pos (comps ! k)) = k)"
    by (rule pb(7))
  show "\<forall>l1 i1 l2 i2.
            l1 < length (blob_matrix s') \<and> i1 < length (blob_matrix s' ! l1) \<and>
            l2 < length (blob_matrix s') \<and> i2 < length (blob_matrix s' ! l2) \<and>
            component_of comps (blob_matrix s' ! l1 ! i1) =
              component_of comps (blob_matrix s' ! l2 ! i2) \<longrightarrow>
            l1 = l2 \<and> i1 = i2"
    using blob_of_component_unique[OF pb(2,3)] by blast
qed

theorem pixel_placement_witness:
  "\<exists>s'. process 2 2 2 [1, 1, 0, 1] ([0, 0, 1, 1] :: int list) raised_cloud 2 (idle_detector 10) = Some s' \<and>
     map (map indices) (blob_matrix s') = [[[2]], [[0, 1, 3]]] \<and>
     (\<forall>l < length (blob_matrix s'). \<forall>b \<in> set (blob_matrix s' ! l).
        label b = l \<and> (\<forall>k \<in> set (indices b). [1, 1, 0, 1] ! k = l)) \<and>
     (\<exists>pos. \<forall>k < length ([0, 0, 1, 1] :: int list).
        survives raised_cloud ([0, 0, 1, 1] :: int list) 2 (max_cluster_size (idle_detector 10)) (([0, 0, 1, 1] :: int list) ! k) \<longrightarrow>
          [1, 1, 0, 1] ! k < length (blob_matrix s') \<and>
          pos (([0, 0, 1, 1] :: int list) ! k) < length (blob_matrix s' ! ([1, 1, 0, 1] ! k)) \<and>
          k \<in> set (indices (blob_matrix s' ! ([1, 1, 0, 1] ! k) ! pos (([0, 0, 1, 1] :: int list) ! k))) \<and>
          ((\<forall>j<k. ([0, 0, 1, 1] :: int list) ! j \<noteq> ([0, 0, 1, 1] :: int list) ! k) \<longrightarrow>
             first_pixel (blob_matrix s' ! ([1, 1, 0, 1] ! k) ! pos (([0, 0, 1, 1] :: int list) ! k)) = k)) \<and>
     (\<forall>l1 i1 l2 i2.
        l1 < length (blob_matrix s') \<and> i1 < length (blob_matrix s' ! l1) \<and>
        l2 < length (blob_matrix s') \<and> i2 < length (blob_matrix s' ! l2) \<and>
        component_of ([0, 0, 1, 1] :: int list) (blob_matrix s' ! l1 ! i1) =
          component_of ([0, 0, 1, 1] :: int list) (blob_matrix s' ! l2 ! i2) \<longrightarrow>
        l1 = l2 \<and> i1 = i2)"
proof (rule exI[of _ mixed_result], intro conjI)
  show "process 2 2 2 [1, 1, 0, 1] ([0, 0, 1, 1] :: int list) raised_cloud 2 (idle_detector 10) =
      Some mixed_result" by (rule run_mixed)
  show "map (map indices) (blob_matrix mixed_result) = [[[2]], [[0, 1, 3]]]"
    by (simp add: mixed_result_def)
  note w = pixel_placement[OF run_mixed]
  from w show "\<forall>l < length (blob_matrix mixed_result). \<forall>b \<in> set (blob_matrix mixed_result ! l).
        label b = l \<and> (\<forall>k \<in> set (indices b). [1, 1, 0, 1] ! k = l)"
    by (rule conjunct1)
  from w[THEN conjunct2] show "\<exists>pos. \<forall>k < length ([0, 0, 1, 1] :: int list).
        survives raised_cloud ([0, 0, 1, 1] :: int list) 2 (max_cluster_size (idle_detector 10)) (([0, 0, 1, 1] :: int list) ! k) \<longrightarrow>
          [1, 1, 0, 1] ! k < length (blob_matrix mixed_result) \<and>
          pos (([0, 0, 1, 1] :: int list) ! k) < length (blob_matrix mixed_result ! ([1, 1, 0, 1] ! k)) \<and>
          k \<in> set (indices (blob_matrix mixed_result ! ([1, 1, 0, 1] ! k) ! pos (([0, 0, 1, 1] :: int list) ! k))) \<and>
          ((\<forall>j<k. ([0, 0, 1, 1] :: int list) ! j \<noteq> ([0, 0, 1, 1] :: int list) ! k) \<longrightarrow>
             first_pixel (blob_matrix mixed_result ! ([1, 1, 0, 1] ! k) ! pos (([0, 0, 1, 1] :: int list) ! k)) = k)"
    by (rule conjunct1)
  from w[THEN conjunct2] show "\<forall>l1 i1 l2 i2.
        l1 < length (blob_matrix mixed_result) \<and> i1 < length (blob_matrix mixed_result ! l1) \<and>
        l2 < length (blob_matrix mixed_result) \<and> i2 < length (blob_matrix mixed_result ! l2) \<and>
        component_of ([0, 0, 1, 1] :: int list) (blob_matrix mixed_result ! l1 ! i1) =
          component_of ([0, 0, 1, 1] :: int list) (blob_matrix mixed_result ! l2 ! i2) \<longrightarrow>
        l1 = l2 \<and> i1 = i2"
    by (rule conjunct2)
qed

subsection \<open>Frames with one label per component\<close>

lemma process_full:
  assumes fr: "frame_ok rows cols labs comps cloud" and hom: "label_homogeneous P labs comps"
    and run: "process P rows cols labs comps cloud minp s = Some s'"
  shows "matrix_all (\<lambda>l i. blob_full comps (length comps)) (blob_matrix s')"
proof -
  from fr hom obtain s'' rm bm where
    "process P rows cols labs comps cloud minp s = Some s''"
    and bm: "blob_matrix s'' = number_matrix 0 bm"
    and full: "matrix_all (\<lambda>l i. blob_full comps (length comps)) bm"
    by (rule process_homogeneous)
  with run have "s'' = s'" by simp
  with bm have "blob_matrix s' = number_matrix 0 bm" by simp
  moreover have "matrix_all (\<lambda>l i. blob_full comps (length comps)) (number_matrix 0 bm)"
    using full by (rule number_matrix_all) (simp add: blob_full_renumber)
  ultimately show ?thesis by simp
qed

lemma members_mean_full:
  assumes "indices b = component_pixels comps c"
  shows "members_mean cloud b = div3 (component_sum cloud comps c) (component_count comps c)"
  using assms
  by (simp add: members_mean_def component_sum_def component_count_def component_pixels_def
      sum_upto_def count_upto_def)

subsection \<open>The centroid\<close>

text \<open>
  Claim C4, as stated, makes the centroid of every blob the mean of its member points. The
  centroid is computed once, at line 222 to 224, from the sums of the whole component; in
  the frame below, component 1 has the pixels 2 and 3 and its blob has the member 2 alone,
  so the centroid \<open>(6, 5, 5)\<close> is not the mean \<open>(5, 5, 5)\<close> of the member points.
\<close>

theorem centroid_counterexample:
  "\<exists>s'. process 2 2 2 [1, 1, 0, 1] [0, 0, 1, 1] raised_cloud 2 (idle_detector 10) = Some s' \<and>
     indices (blob_matrix s' ! 0 ! 0) = [2] \<and>
     mean (blob_matrix s' ! 0 ! 0) = point 6 5 5 \<and>
     members_mean raised_cloud (blob_matrix s' ! 0 ! 0) = point 5 5 5 \<and>
     mean (blob_matrix s' ! 0 ! 0) \<noteq> members_mean raised_cloud (blob_matrix s' ! 0 ! 0)"
proof (rule exI[of _ mixed_result], intro conjI)
  show "process 2 2 2 [1, 1, 0, 1] [0, 0, 1, 1] raised_cloud 2 (idle_detector 10) =
      Some mixed_result" by (rule run_mixed)
  show mm: "members_mean raised_cloud (blob_matrix mixed_result ! 0 ! 0) = point 5 5 5"
    by (simp add: mixed_result_def members_mean_def raised_cloud_def point_def add3_def
        div3_def zero3_def)
  show "mean (blob_matrix mixed_result ! 0 ! 0) \<noteq>
      members_mean raised_cloud (blob_matrix mixed_result ! 0 ! 0)"
    unfolding mm by (simp add: mixed_result_def point_def)
qed (simp_all add: mixed_result_def)

text \<open>
  Claim C4, amended. Whenever \<open>process\<close> returns, the centroid of every blob is the
  coordinate sum of the component of its first member divided by the count of that
  component, both accumulated in pass 1 over all pixels of the frame. On a well-formed
  frame with one label per component the members of the blob are the pixels of that
  component, and the centroid is the arithmetic mean of the member points.
\<close>

theorem centroid_is_component_mean:
  assumes "process NUM_PARTS rows cols labs comps cloud min_pts s = Some s'"
  shows "\<forall>row \<in> set (blob_matrix s'). \<forall>b \<in> set row.
           mean b = div3 (component_sum cloud comps (component_of comps b))
                         (component_count comps (component_of comps b)) \<and>
           (frame_ok rows cols labs comps cloud \<and> label_homogeneous NUM_PARTS labs comps \<longrightarrow>
              indices b = component_pixels comps (component_of comps b) \<and>
              mean b = members_mean cloud b)"
proof (intro ballI)
  fix row b assume "row \<in> set (blob_matrix s')" and "b \<in> set row"
  then obtain l i where l: "l < length (blob_matrix s')" and i: "i < length (blob_matrix s' ! l)"
    and b: "b = blob_matrix s' ! l ! i"
    by (metis in_set_conv_nth)
  from process_blobs(2)[OF assms] l i b
  have "blob_ok labs comps cloud (survives cloud comps min_pts (max_cluster_size s))
      (length comps) l b" by (simp add: matrix_all_def)
  then have m: "mean b = div3 (component_sum cloud comps (component_of comps b))
                         (component_count comps (component_of comps b))"
    by (simp add: blob_ok_def)
  have "indices b = component_pixels comps (component_of comps b) \<and> mean b = members_mean cloud b"
    if "frame_ok rows cols labs comps cloud" "label_homogeneous NUM_PARTS labs comps"
  proof -
    from process_full[OF that assms] l i b
    have f: "indices b = component_pixels comps (component_of comps b)"
      by (simp add: matrix_all_def blob_full_def component_pixels_def)
    from members_mean_full[OF f] m f show ?thesis by simp
  qed
  with m show "mean b = div3 (component_sum cloud comps (component_of comps b))
                         (component_count comps (component_of comps b)) \<and>
           (frame_ok rows cols labs comps cloud \<and> label_homogeneous NUM_PARTS labs comps \<longrightarrow>
              indices b = component_pixels comps (component_of comps b) \<and>
              mean b = members_mean cloud b)" by blast
qed

theorem centroid_is_component_mean_witness:
  "frame_ok 2 2 [0, 0, 1, 1] [0, 0, 1, 1] raised_cloud \<and>
   label_homogeneous 2 [0, 0, 1, 1] [0, 0, 1, 1] \<and>
   (\<exists>s'. process 2 2 2 [0, 0, 1, 1] [0, 0, 1, 1] raised_cloud 1 (idle_detector 10) = Some s' \<and>
      map (map mean) (blob_matrix s') = [[point 1 0 1], [point 6 5 5]] \<and>
      (\<forall>row \<in> set (blob_matrix s'). \<forall>b \<in> set row.
         mean b = div3 (component_sum raised_cloud [0, 0, 1, 1] (component_of [0, 0, 1, 1] b))
                       (component_count [0, 0, 1, 1] (component_of [0, 0, 1, 1] b)) \<and>
         indices b = component_pixels [0, 0, 1, 1] (component_of [0, 0, 1, 1] b) \<and>
         mean b = members_mean raised_cloud b))"
proof (intro conjI)
  show f: "frame_ok 2 2 [0, 0, 1, 1] [0, 0, 1, 1] raised_cloud" by (rule frame_ok_raised)
  show h: "label_homogeneous 2 [0, 0, 1, 1] [0, 0, 1, 1]" by (rule homogeneous_raised)
  show "\<exists>s'. process 2 2 2 [0, 0, 1, 1] [0, 0, 1, 1] raised_cloud 1 (idle_detector 10) = Some s' \<and>
      map (map mean) (blob_matrix s') = [[point 1 0 1], [point 6 5 5]] \<and>
      (\<forall>row \<in> set (blob_matrix s'). \<forall>b \<in> set row.
         mean b = div3 (component_sum raised_cloud [0, 0, 1, 1] (component_of [0, 0, 1, 1] b))
                       (component_count [0, 0, 1, 1] (component_of [0, 0, 1, 1] b)) \<and>
         indices b = component_pixels [0, 0, 1, 1] (component_of [0, 0, 1, 1] b) \<and>
         mean b = members_mean raised_cloud b)"
  proof (rule exI[of _ raised_result], intro conjI)
    show "process 2 2 2 [0, 0, 1, 1] [0, 0, 1, 1] raised_cloud 1 (idle_detector 10) =
        Some raised_result" by (rule run_raised)
    show "map (map mean) (blob_matrix raised_result) = [[point 1 0 1], [point 6 5 5]]"
      by (simp add: raised_result_def)
    show "\<forall>row \<in> set (blob_matrix raised_result). \<forall>b \<in> set row.
         mean b = div3 (component_sum raised_cloud [0, 0, 1, 1] (component_of [0, 0, 1, 1] b))
                       (component_count [0, 0, 1, 1] (component_of [0, 0, 1, 1] b)) \<and>
         indices b = component_pixels [0, 0, 1, 1] (component_of [0, 0, 1, 1] b) \<and>
         mean b = members_mean raised_cloud b"
      using centroid_is_component_mean[OF run_raised] f h by blast
  qed
qed

subsection \<open>The size of a blob\<close>

text \<open>
  Claim C1, as stated, bounds the member count of every blob for every frame whose grids
  have \<open>rows * cols\<close> pixels and whose component ids lie in \<open>[-1, rows * cols)\<close>. The bounds
  are tested on the count of the component, and a pixel is appended in the row of its own
  label: in the frame below both components have two pixels and pass the test with
  \<open>min_pts_per_cluster = 2\<close>, and the blob of row 0 has one member.
\<close>

theorem blob_size_counterexample:
  "frame_ok 2 2 [1, 1, 0, 1] [0, 0, 1, 1] raised_cloud \<and> (0 :: int) \<le> 2 \<and> (2 :: int) < 10 \<and>
   (\<exists>s'. process 2 2 2 [1, 1, 0, 1] [0, 0, 1, 1] raised_cloud 2 (idle_detector 10) = Some s' \<and>
      max_cluster_size (idle_detector 10) = 10 \<and>
      map (map (\<lambda>b. length (indices b))) (blob_matrix s') = [[1], [3]])"
proof (intro conjI)
  show "frame_ok 2 2 [1, 1, 0, 1] [0, 0, 1, 1] raised_cloud"
    by (simp add: frame_ok_def raised_cloud_def)
  show "\<exists>s'. process 2 2 2 [1, 1, 0, 1] [0, 0, 1, 1] raised_cloud 2 (idle_detector 10) = Some s' \<and>
      max_cluster_size (idle_detector 10) = 10 \<and>
      map (map (\<lambda>b. length (indices b))) (blob_matrix s') = [[1], [3]]"
  proof (rule exI[of _ mixed_result], intro conjI)
    show "process 2 2 2 [1, 1, 0, 1] [0, 0, 1, 1] raised_cloud 2 (idle_detector 10) =
        Some mixed_result" by (rule run_mixed)
    show "max_cluster_size (idle_detector 10) = 10" by (simp add: idle_detector_def)
    show "map (map (\<lambda>b. length (indices b))) (blob_matrix mixed_result) = [[1], [3]]"
      by (simp add: mixed_result_def)
  qed
qed simp_all

text \<open>
  Claim C1, amended. For every frame whose grids have \<open>rows * cols\<close> pixels, whose component
  ids lie in \<open>[-1, rows * cols)\<close> and whose components each carry one label, below
  \<open>NUM_PARTS\<close>, \<open>process\<close> returns, and the member count of every blob of the matrix is the
  count of its component and lies in \<open>[min_pts_per_cluster, max_cluster_size]\<close>.
\<close>

theorem blob_size_within_bounds:
  assumes "frame_ok rows cols labs comps cloud" and "label_homogeneous NUM_PARTS labs comps"
  shows "\<exists>s'. process NUM_PARTS rows cols labs comps cloud min_pts s = Some s' \<and>
           (\<forall>row \<in> set (blob_matrix s'). \<forall>b \<in> set row.
              int (length (indices b)) = component_count comps (component_of comps b) \<and>
              min_pts \<le> int (length (indices b)) \<and>
              int (length (indices b)) \<le> max_cluster_size s)"
proof -
  from assms obtain s' where run: "process NUM_PARTS rows cols labs comps cloud min_pts s = Some s'"
    by (rule process_homogeneous)
  have "int (length (indices b)) = component_count comps (component_of comps b) \<and>
        min_pts \<le> int (length (indices b)) \<and> int (length (indices b)) \<le> max_cluster_size s"
    if "row \<in> set (blob_matrix s')" "b \<in> set row" for row b
  proof -
    from that obtain l i where l: "l < length (blob_matrix s')"
      and i: "i < length (blob_matrix s' ! l)" and b: "b = blob_matrix s' ! l ! i"
      by (metis in_set_conv_nth)
    from process_full[OF assms run] l i b
    have "indices b = pixels_upto comps (length comps) (component_of comps b)"
      by (simp add: matrix_all_def blob_full_def)
    then have n: "int (length (indices b)) = component_count comps (component_of comps b)"
      by (simp add: component_count_def count_upto_def)
    from process_blobs(2)[OF run] l i b
    have "blob_ok labs comps cloud (survives cloud comps min_pts (max_cluster_size s))
        (length comps) l b" by (simp add: matrix_all_def)
    then have "survives cloud comps min_pts (max_cluster_size s) (component_of comps b)"
      by (rule blob_ok_first_pixel)
    with n show ?thesis by (simp add: survives_def)
  qed
  with run show ?thesis by blast
qed

theorem blob_size_within_bounds_witness:
  "frame_ok 2 2 [0, 0, 1, 1] [0, 0, 1, 1] raised_cloud \<and>
   label_homogeneous 2 [0, 0, 1, 1] [0, 0, 1, 1] \<and>
   process 2 2 2 [0, 0, 1, 1] [0, 0, 1, 1] raised_cloud 1 (idle_detector 10) = Some raised_result \<and>
   map (map (\<lambda>b. length (indices b))) (blob_matrix raised_result) = [[2], [2]] \<and>
   (\<exists>s'. process 2 2 2 [0, 0, 1, 1] [0, 0, 1, 1] raised_cloud 1 (idle_detector 10) = Some s' \<and>
      (\<forall>row \<in> set (blob_matrix s'). \<forall>b \<in> set row.
         int (length (indices b)) =
           component_count [0, 0, 1, 1] (component_of [0, 0, 1, 1] b) \<and>
         1 \<le> int (length (indices b)) \<and>
         int (length (indices b)) \<le> max_cluster_size (idle_detector 10)))"
proof (intro conjI)
  show "frame_ok 2 2 [0, 0, 1, 1] [0, 0, 1, 1] raised_cloud" by (rule frame_ok_raised)
  show "label_homogeneous 2 [0, 0, 1, 1] [0, 0, 1, 1]" by (rule homogeneous_raised)
  show "process 2 2 2 [0, 0, 1, 1] [0, 0, 1, 1] raised_cloud 1 (idle_detector 10) =
      Some raised_result" by (rule run_raised)
  show "map (map (\<lambda>b. length (indices b))) (blob_matrix raised_result) = [[2], [2]]"
    by (simp add: raised_result_def)
  show "\<exists>s'. process 2 2 2 [0, 0, 1, 1] [0, 0, 1, 1] raised_cloud 1 (idle_detector 10) = Some s' \<and>
      (\<forall>row \<in> set (blob_matrix s'). \<forall>b \<in> set row.
         int (length (indices b)) =
           component_count [0, 0, 1, 1] (component_of [0, 0, 1, 1] b) \<and>
         1 \<le> int (length (indices b)) \<and>
         int (length (indices b)) \<le> max_cluster_size (idle_detector 10))"
    by (rule blob_size_within_bounds[OF frame_ok_raised homogeneous_raised])
qed

subsection \<open>Frames without a surviving component\<close>

text \<open>\<open>process\<close> from the result of pass 2.\<close>

lemma process_from_pass2:
  assumes "length comps \<le> length cloud" and "\<forall>cc \<in> set comps. -1 \<le> cc \<and> cc < int (rows * cols)"
    and "for_loop (pass2_body minp) [0..<length comps]
           (accumulated_state P (rows * cols) labs comps cloud (max_cluster_size s)) = Some t"
  shows "process P rows cols labs comps cloud minp s =
           Some (t\<lparr>blob_matrix := number_matrix 0 (blob_matrix t)\<rparr>)"
  unfolding process_reset
  by (simp add: pass1_total[OF assms(1,2)] clear_invalid_pass1 accumulated_fields assms(3))

lemma survives_sentinel: "\<not> survives cloud comps minp mx (-1)"
  by (simp add: survives_def)

text \<open>
  Claim C8. On a frame whose grids have \<open>rows * cols\<close> pixels and whose component ids lie in
  \<open>[-1, rows * cols)\<close>, when every pixel has the sentinel \<open>-1\<close> or a component that fails the
  test of line 212, \<open>process\<close> returns and every row of the blob matrix is empty, whatever
  \<open>min_pts_per_cluster\<close> and \<open>max_cluster_size\<close> are.
\<close>

theorem no_survivor_empty_matrix:
  assumes "frame_ok rows cols labs comps cloud"
    and "\<forall>cc \<in> set comps. cc = -1 \<or> \<not> survives cloud comps min_pts (max_cluster_size s) cc"
  shows "\<exists>s'. process NUM_PARTS rows cols labs comps cloud min_pts s = Some s' \<and>
           blob_matrix s' = replicate NUM_PARTS []"
proof -
  let ?n = "rows * cols" and ?mx = "max_cluster_size s"
  let ?A = "accumulated_state NUM_PARTS ?n labs comps cloud ?mx"
  from assms(1) have len: "length labs = length comps" "length comps \<le> length cloud"
    and rng: "\<forall>cc \<in> set comps. -1 \<le> cc \<and> cc < int ?n"
    by (simp_all add: frame_ok_def)
  from assms(2) have nsv: "\<not> survives cloud comps min_pts ?mx (comps ! k)" if "k < length comps" for k
    using that survives_sentinel[of cloud comps min_pts ?mx] by (metis nth_mem)
  have "\<exists>t. for_loop (pass2_body min_pts) [0..<length comps] ?A = Some t \<and> t = ?A"
  proof (rule for_loop_total[where I = "\<lambda>k t. t = ?A"])
    fix k t assume k: "k < length comps" and t: "t = ?A"
    from k len have "k < length labs" by simp
    moreover from k rng have "-1 \<le> comps ! k" "comps ! k < int ?n" by auto
    ultimately have "pass2_body min_pts k
        (?A\<lparr>remap := replicate ?n (-1), blob_matrix := replicate NUM_PARTS []\<rparr>) =
        Some (?A\<lparr>remap := replicate ?n (-1), blob_matrix := replicate NUM_PARTS []\<rparr>)"
      using k nsv by (intro pass2_body_skip) auto
    then show "\<exists>t'. pass2_body min_pts k t = Some t' \<and> t' = ?A"
      by (simp add: t accumulated_state_self)
  qed simp
  then have "for_loop (pass2_body min_pts) [0..<length comps] ?A = Some ?A" by simp
  from process_from_pass2[OF len(2) rng this]
  show ?thesis by (simp add: accumulated_fields number_matrix_empty)
qed

theorem no_survivor_empty_matrix_witness:
  "frame_ok 2 2 [0, 0, 1, 1] [-1, -1, -1, -1] raised_cloud \<and>
   set [-1, -1, -1, -1] = {-1 :: int} \<and>
   (\<exists>s'. process 2 2 2 [0, 0, 1, 1] [-1, -1, -1, -1] raised_cloud 1 (idle_detector 10) = Some s' \<and>
      blob_matrix s' = replicate 2 [])"
proof (intro conjI)
  show f: "frame_ok 2 2 [0, 0, 1, 1] [-1, -1, -1, -1] raised_cloud"
    by (simp add: frame_ok_def raised_cloud_def)
  show "set [-1, -1, -1, -1] = {-1 :: int}" by simp
  have h: "\<forall>cc \<in> set [-1, -1, -1, -1].
      cc = -1 \<or> \<not> survives raised_cloud [-1, -1, -1, -1] 1 (max_cluster_size (idle_detector 10)) cc"
    by simp
  show "\<exists>s'. process 2 2 2 [0, 0, 1, 1] [-1, -1, -1, -1] raised_cloud 1 (idle_detector 10) = Some s' \<and>
      blob_matrix s' = replicate 2 []"
    by (rule no_survivor_empty_matrix[OF f h])
qed

subsection \<open>Scenario A\<close>

text \<open>
  Claim C6, as stated, gives row \<open>L0\<close> one blob with centroid \<open>(1, 0, 0)\<close>. The two points of
  component 0 have \<open>z = 0\<close>, so the \<open>z\<close> sum of the component is zero, the test of line 212
  fails, and row \<open>L0\<close> is empty.
\<close>

theorem scenario_A_counterexample:
  "\<exists>s'. process 2 2 2 [0, 0, 1, 1] [0, 0, 1, 1] scenario_A_cloud 1 (idle_detector 10) = Some s' \<and>
     max_cluster_size (idle_detector 10) = 10 \<and>
     component_sum scenario_A_cloud [0, 0, 1, 1] 0 = point 2 0 0 \<and>
     blob_matrix s' ! 0 = []"
proof (rule exI[of _ scenario_A_result], intro conjI)
  show "process 2 2 2 [0, 0, 1, 1] [0, 0, 1, 1] scenario_A_cloud 1 (idle_detector 10) =
      Some scenario_A_result" by (rule run_scenario_A)
  show "max_cluster_size (idle_detector 10) = 10" by (simp add: idle_detector_def)
  show "component_sum scenario_A_cloud [0, 0, 1, 1] 0 = point 2 0 0"
    unfolding component_sum_def sum_upto_def pixels_upto_def scenario_A_cloud_def point_def
      add3_def zero3_def
    by code_simp
  show "blob_matrix scenario_A_result ! 0 = []" by (simp add: scenario_A_result_def)
qed

lemma scenario_A_components:
  "\<not> survives scenario_A_cloud [0, 0, 1, 1] 1 10 0"
  "survives scenario_A_cloud [0, 0, 1, 1] 1 10 1"
  "created_blob [0, 0, 1, 1] [0, 0, 1, 1] scenario_A_cloud 2 =
     \<lparr>label = 1, mean = point 6 5 5, indices = [2], id' = 0, lid = 0\<rparr>"
  unfolding survives_def created_blob_def component_sum_def component_count_def sum_upto_def
    count_upto_def pixels_upto_def scenario_A_cloud_def point_def add3_def div3_def zero3_def
  by code_simp+

lemma scenario_A_pass2:
  assumes "2 \<le> P"
  shows "for_loop (pass2_body 1) [0, 1, 2, 3]
           (accumulated_state P 4 [0, 0, 1, 1] [0, 0, 1, 1] scenario_A_cloud 10) =
         Some ((accumulated_state P 4 [0, 0, 1, 1] [0, 0, 1, 1] scenario_A_cloud 10)
           \<lparr>remap := [-1, 0, -1, -1],
            blob_matrix := (replicate P [])[1 :=
              [\<lparr>label = 1, mean = point 6 5 5, indices = [2, 3], id' = 0, lid = 0\<rparr>]]\<rparr>)"
proof -
  define labs :: "nat list" where "labs = [0, 0, 1, 1]"
  define comps :: "int list" where "comps = [0, 0, 1, 1]"
  define A where "A = accumulated_state P 4 labs comps scenario_A_cloud 10"
  define b :: Blob2 where "b = \<lparr>label = 1, mean = point 6 5 5, indices = [2], id' = 0, lid = 0\<rparr>"
  define rm :: "int list" where "rm = replicate 4 (-1)"
  define bm :: "Blob2 list list" where "bm = replicate P []"
  have len: "length labs = 4" "length comps = 4" "length rm = 4" "length bm = P"
    by (simp_all add: labs_def comps_def rm_def bm_def)
  have at: "comps ! 0 = 0" "comps ! Suc 0 = 0" "comps ! 2 = 1" "comps ! 3 = 1"
    "labs ! 2 = Suc 0" "labs ! 3 = Suc 0"
    by (simp_all add: labs_def comps_def)
  have sv: "\<not> survives scenario_A_cloud comps 1 10 0" "survives scenario_A_cloud comps 1 10 1"
    and cb: "created_blob labs comps scenario_A_cloud 2 = b"
    unfolding labs_def comps_def b_def by (rule scenario_A_components)+
  have A0: "A\<lparr>remap := rm, blob_matrix := bm\<rparr> = A"
    unfolding A_def rm_def bm_def by (rule accumulated_state_self)
  have "pass2_body 1 0 (A\<lparr>remap := rm, blob_matrix := bm\<rparr>) = Some (A\<lparr>remap := rm, blob_matrix := bm\<rparr>)"
    unfolding A_def by (rule pass2_body_skip) (simp_all add: len at sv)
  then have s0: "pass2_body 1 0 A = Some A" unfolding A0 .
  have "pass2_body 1 (Suc 0) (A\<lparr>remap := rm, blob_matrix := bm\<rparr>) = Some (A\<lparr>remap := rm, blob_matrix := bm\<rparr>)"
    unfolding A_def by (rule pass2_body_skip) (simp_all add: len at sv)
  then have s1: "pass2_body 1 (Suc 0) A = Some A" unfolding A0 .
  have rm1: "rm ! nat 1 = -1" "rm ! Suc 0 = -1" "rm[nat 1 := 0] = [-1, 0, -1, -1]"
    "rm[Suc 0 := 0] = [-1, 0, -1, -1]"
    by (simp_all add: rm_def eval_nat_numeral)
  have bm1: "bm ! Suc 0 = []" "Suc 0 < P" using assms by (simp_all add: bm_def)
  have "pass2_body 1 2 (A\<lparr>remap := rm, blob_matrix := bm\<rparr>) =
      Some (A\<lparr>remap := rm[nat (comps ! 2) := int (length (bm ! (labs ! 2)))],
        blob_matrix := bm[labs ! 2 := bm ! (labs ! 2) @ [created_blob labs comps scenario_A_cloud 2]]\<rparr>)"
    unfolding A_def by (rule pass2_body_create) (simp_all add: len at sv rm1 bm1)
  then have s2: "pass2_body 1 2 A =
      Some (A\<lparr>remap := [-1, 0, -1, -1], blob_matrix := bm[Suc 0 := [b]]\<rparr>)"
    unfolding A0 at cb by (simp add: rm1 bm1)
  let ?rm = "[-1, 0, -1, -1] :: int list" and ?bm = "bm[Suc 0 := [b]]"
  have rm2: "?rm ! nat 1 = 0" "?rm ! Suc 0 = 0" by simp_all
  have bm2: "?bm ! Suc 0 = [b]" using bm1 by (simp add: len)
  have "pass2_body 1 3 (A\<lparr>remap := ?rm, blob_matrix := ?bm\<rparr>) =
      Some (A\<lparr>remap := ?rm,
        blob_matrix := ?bm[labs ! 3 := (?bm ! (labs ! 3))[nat (?rm ! nat (comps ! 3)) :=
          (?bm ! (labs ! 3) ! nat (?rm ! nat (comps ! 3)))
            \<lparr>indices := indices (?bm ! (labs ! 3) ! nat (?rm ! nat (comps ! 3))) @ [3]\<rparr>]]\<rparr>)"
    unfolding A_def by (rule pass2_body_append) (simp_all add: len at sv bm1 bm2 del: list_update.simps)
  then have s3: "pass2_body 1 3 (A\<lparr>remap := ?rm, blob_matrix := ?bm\<rparr>) =
      Some (A\<lparr>remap := ?rm, blob_matrix := bm[Suc 0 := [b\<lparr>indices := [2, 3]\<rparr>]]\<rparr>)"
    unfolding at rm2 bm2 by (simp add: b_def)
  have "for_loop (pass2_body 1) [0, 1, 2, 3] A =
      Some (A\<lparr>remap := ?rm, blob_matrix := bm[Suc 0 := [b\<lparr>indices := [2, 3]\<rparr>]]\<rparr>)"
    by (simp add: s0 s1 s2 s3)
  then show ?thesis
    unfolding A_def labs_def comps_def bm_def b_def by simp
qed

text \<open>
  Claim C6, amended. In scenario A, with \<open>L0 = 0\<close>, \<open>L1 = 1\<close>, at least two parts and
  \<open>max_cluster_size = 10\<close>, \<open>process\<close> returns a blob matrix whose row \<open>L0\<close> is empty and whose
  row \<open>L1\<close> holds one blob with centroid \<open>(6, 5, 5)\<close>, the two members 2 and 3, \<open>id = 0\<close> and
  \<open>lid = 0\<close>; every other row is empty, and the one id assigned is 0.
\<close>

theorem scenario_A:
  assumes "2 \<le> NUM_PARTS" and "max_cluster_size s = 10"
  shows "\<exists>s'. process NUM_PARTS 2 2 [0, 0, 1, 1] [0, 0, 1, 1] scenario_A_cloud 1 s = Some s' \<and>
           blob_matrix s' = (replicate NUM_PARTS [])[1 :=
             [\<lparr>label = 1, mean = point 6 5 5, indices = [2, 3], id' = 0, lid = 0\<rparr>]]"
proof -
  have n: "(2 :: nat) * 2 = 4" by simp
  have u: "[0..<length [0, 0, 1, 1 :: int]] = [0, 1, 2, 3]" by (simp add: upt_rec)
  have "length [0, 0, 1, 1 :: int] \<le> length scenario_A_cloud"
    and "\<forall>cc \<in> set [0, 0, 1, 1 :: int]. -1 \<le> cc \<and> cc < int (2 * 2)"
    by (simp_all add: scenario_A_cloud_def)
  from process_from_pass2[OF this, of 1 NUM_PARTS "[0, 0, 1, 1]" s, unfolded n u assms(2),
      OF scenario_A_pass2[OF assms(1)]]
  show ?thesis
    using assms(1) by (simp add: number_matrix_single)
qed

theorem scenario_A_witness:
  "(2 :: nat) \<le> 2 \<and> max_cluster_size (idle_detector 10) = 10 \<and>
   (\<exists>s'. process 2 2 2 [0, 0, 1, 1] [0, 0, 1, 1] scenario_A_cloud 1 (idle_detector 10) = Some s' \<and>
      blob_matrix s' = (replicate 2 [])[1 :=
        [\<lparr>label = 1, mean = point 6 5 5, indices = [2, 3], id' = 0, lid = 0\<rparr>]])"
proof (intro conjI)
  show 1: "(2 :: nat) \<le> 2" by simp
  show 2: "max_cluster_size (idle_detector 10) = 10" by (simp add: idle_detector_def)
  show "\<exists>s'. process 2 2 2 [0, 0, 1, 1] [0, 0, 1, 1] scenario_A_cloud 1 (idle_detector 10) = Some s' \<and>
      blob_matrix s' = (replicate 2 [])[1 :=
        [\<lparr>label = 1, mean = point 6 5 5, indices = [2, 3], id' = 0, lid = 0\<rparr>]]"
    by (rule scenario_A[OF 1 2])
qed

end
